theory Spec2Isabelle
  imports Complex_Main "HOL-Library.AList" "HOL-Library.Multiset"
begin

section \<open>Numbers\<close>

text \<open>
  A JavaScript \<^verbatim>\<open>number\<close> is a finite value, one of the two infinities, or NaN.
  The finite part is modelled by the reals: arithmetic on finite values is exact (no
  rounding, no overflow to an infinity, no signed zero). What is kept of IEEE arithmetic
  is the behaviour of the special values: NaN is contagious through \<^verbatim>\<open>+\<close>,
  \<^verbatim>\<open>-\<close>, \<^verbatim>\<open>*\<close>, \<^verbatim>\<open>/\<close>, \<^verbatim>\<open>Math.min\<close> and
  \<^verbatim>\<open>Math.max\<close>, every comparison with NaN is false, and
  \<^verbatim>\<open>Infinity - Infinity\<close>, \<^verbatim>\<open>0 * Infinity\<close>, \<^verbatim>\<open>0 / 0\<close> and
  \<^verbatim>\<open>Infinity / Infinity\<close> are NaN.
\<close>

datatype jsnum = NaN | NegInf | Fin real | PosInf

fun jneg :: "jsnum \<Rightarrow> jsnum" where
  "jneg NaN = NaN"
| "jneg NegInf = PosInf"
| "jneg (Fin a) = Fin (- a)"
| "jneg PosInf = NegInf"

fun jadd :: "jsnum \<Rightarrow> jsnum \<Rightarrow> jsnum" where
  "jadd NaN b = NaN"
| "jadd a NaN = NaN"
| "jadd (Fin a) (Fin b) = Fin (a + b)"
| "jadd (Fin a) b = b"
| "jadd a (Fin b) = a"
| "jadd PosInf PosInf = PosInf"
| "jadd NegInf NegInf = NegInf"
| "jadd PosInf NegInf = NaN"
| "jadd NegInf PosInf = NaN"

definition jsub :: "jsnum \<Rightarrow> jsnum \<Rightarrow> jsnum" where
  "jsub a b = jadd a (jneg b)"

text \<open>The sign of a number that is not NaN: \<open>-1\<close>, \<open>0\<close> or \<open>1\<close>.\<close>

fun jsign :: "jsnum \<Rightarrow> int" where
  "jsign NaN = 0"
| "jsign NegInf = - 1"
| "jsign (Fin a) = (if a < 0 then - 1 else if a = 0 then 0 else 1)"
| "jsign PosInf = 1"

definition signedInf :: "int \<Rightarrow> jsnum" where
  "signedInf s = (if s < 0 then NegInf else if s = 0 then NaN else PosInf)"

fun jmul :: "jsnum \<Rightarrow> jsnum \<Rightarrow> jsnum" where
  "jmul NaN b = NaN"
| "jmul a NaN = NaN"
| "jmul (Fin a) (Fin b) = Fin (a * b)"
| "jmul a b = signedInf (jsign a * jsign b)"

text \<open>
  Division: a finite non-zero value over zero is an infinity of the dividend's sign (the
  zero is taken as \<open>+0\<close>), a finite value over an infinity is zero.
\<close>

fun jdiv :: "jsnum \<Rightarrow> jsnum \<Rightarrow> jsnum" where
  "jdiv NaN b = NaN"
| "jdiv a NaN = NaN"
| "jdiv (Fin a) (Fin b) = (if b = 0 then signedInf (jsign (Fin a)) else Fin (a / b))"
| "jdiv (Fin a) b = Fin 0"
| "jdiv a (Fin b) = signedInf (jsign a * (if b < 0 then - 1 else 1))"
| "jdiv a b = NaN"

text \<open>The comparison \<^verbatim>\<open>a < b\<close>; \<^verbatim>\<open>a > b\<close> is \<open>jlt b a\<close>.\<close>

fun jlt :: "jsnum \<Rightarrow> jsnum \<Rightarrow> bool" where
  "jlt NaN b = False"
| "jlt a NaN = False"
| "jlt (Fin a) (Fin b) = (a < b)"
| "jlt NegInf NegInf = False"
| "jlt NegInf b = True"
| "jlt a PosInf = (a \<noteq> PosInf)"
| "jlt a b = False"

text \<open>Strict equality \<^verbatim>\<open>a === b\<close> on numbers: NaN equals nothing, itself included.\<close>

definition jeq :: "jsnum \<Rightarrow> jsnum \<Rightarrow> bool" where
  "jeq a b = (a \<noteq> NaN \<and> a = b)"

definition Math_max :: "jsnum \<Rightarrow> jsnum \<Rightarrow> jsnum" where
  "Math_max a b = (if a = NaN \<or> b = NaN then NaN else if jlt a b then b else a)"

definition Math_min :: "jsnum \<Rightarrow> jsnum \<Rightarrow> jsnum" where
  "Math_min a b = (if a = NaN \<or> b = NaN then NaN else if jlt b a then b else a)"

fun Math_floor :: "jsnum \<Rightarrow> jsnum" where
  "Math_floor (Fin a) = Fin (of_int \<lfloor>a\<rfloor>)"
| "Math_floor a = a"

text \<open>\<^verbatim>\<open>isNumeric(n)\<close> is \<^verbatim>\<open>!isNaN(n) && isFinite(n)\<close>; \<^verbatim>\<open>undefined\<close> is not numeric.\<close>

fun isNumeric :: "jsnum option \<Rightarrow> bool" where
  "isNumeric (Some (Fin a)) = True"
| "isNumeric n = False"

section \<open>Geometry types\<close>

record XYPosition =
  pos_x :: jsnum
  pos_y :: jsnum

record Dimensions =
  dim_width :: jsnum
  dim_height :: jsnum

text \<open>\<^verbatim>\<open>Partial<Dimensions>\<close>, also the shape of a node's \<^verbatim>\<open>measured\<close>.\<close>

record PartialDimensions =
  pd_width :: "jsnum option"
  pd_height :: "jsnum option"

record Rect =
  rect_x :: jsnum
  rect_y :: jsnum
  rect_width :: jsnum
  rect_height :: jsnum

record Box =
  box_x :: jsnum
  box_y :: jsnum
  box_x2 :: jsnum
  box_y2 :: jsnum

text \<open>\<^verbatim>\<open>CoordinateExtent = [[number, number], [number, number]]\<close>\<close>

type_synonym CoordinateExtent = "(jsnum \<times> jsnum) \<times> (jsnum \<times> jsnum)"

type_synonym NodeOrigin = "jsnum \<times> jsnum"

definition infiniteExtent :: CoordinateExtent where
  "infiniteExtent = ((NegInf, NegInf), (PosInf, PosInf))"

section \<open>Geometry utilities\<close>

text \<open>\<^verbatim>\<open>clamp = (val, min = 0, max = 1) => Math.min(Math.max(val, min), max)\<close>\<close>

definition clamp :: "jsnum \<Rightarrow> jsnum \<Rightarrow> jsnum \<Rightarrow> jsnum" where
  "clamp val mn mx = Math_min (Math_max val mn) mx"

text \<open>
  \<^verbatim>\<open>clampPosition(position = {x: 0, y: 0}, extent, dimensions)\<close>: the position
  defaults to the origin when it is \<^verbatim>\<open>undefined\<close>, and a missing dimension counts
  as \<open>0\<close> (\<^verbatim>\<open>dimensions?.width ?? 0\<close>).
\<close>

definition clampPosition ::
  "XYPosition option \<Rightarrow> CoordinateExtent \<Rightarrow> PartialDimensions option \<Rightarrow> XYPosition" where
  "clampPosition position extent dimensions =
     (let p = (case position of None \<Rightarrow> \<lparr>pos_x = Fin 0, pos_y = Fin 0\<rparr> | Some q \<Rightarrow> q);
          w = (case dimensions of None \<Rightarrow> Fin 0
               | Some d \<Rightarrow> (case pd_width d of None \<Rightarrow> Fin 0 | Some v \<Rightarrow> v));
          h = (case dimensions of None \<Rightarrow> Fin 0
               | Some d \<Rightarrow> (case pd_height d of None \<Rightarrow> Fin 0 | Some v \<Rightarrow> v))
      in \<lparr>pos_x = clamp (pos_x p) (fst (fst extent)) (jsub (fst (snd extent)) w),
          pos_y = clamp (pos_y p) (snd (fst extent)) (jsub (snd (snd extent)) h)\<rparr>)"

definition getBoundsOfBoxes :: "Box \<Rightarrow> Box \<Rightarrow> Box" where
  "getBoundsOfBoxes box1 box2 =
     \<lparr>box_x = Math_min (box_x box1) (box_x box2),
      box_y = Math_min (box_y box1) (box_y box2),
      box_x2 = Math_max (box_x2 box1) (box_x2 box2),
      box_y2 = Math_max (box_y2 box1) (box_y2 box2)\<rparr>"

definition rectToBox :: "Rect \<Rightarrow> Box" where
  "rectToBox r =
     \<lparr>box_x = rect_x r, box_y = rect_y r,
      box_x2 = jadd (rect_x r) (rect_width r), box_y2 = jadd (rect_y r) (rect_height r)\<rparr>"

definition boxToRect :: "Box \<Rightarrow> Rect" where
  "boxToRect b =
     \<lparr>rect_x = box_x b, rect_y = box_y b,
      rect_width = jsub (box_x2 b) (box_x b), rect_height = jsub (box_y2 b) (box_y b)\<rparr>"

section \<open>Nodes\<close>

text \<open>
  Objects have an identity, which \<^verbatim>\<open>===\<close> compares. Every object of the model
  carries it as the field \<open>ref\<close>, an address; two objects are the same object when
  their addresses are equal. A function that creates objects takes the next free address
  and returns the one after its last allocation.

  \<open>NodeBase\<close> is the user's node (and, for the change functions, any element: an edge
  is an element of which only \<open>id\<close> and \<open>selected\<close> are read). The field \<open>id\<close> of
  the source is \<open>elem_id\<close> here. An optional property is an \<open>option\<close>;
  \<^verbatim>\<open>undefined\<close> is \<open>None\<close>.
\<close>

datatype NodeExtent = ExtentParent | ExtentCoordinates CoordinateExtent

record NodeBase =
  ref :: nat
  elem_id :: string
  position :: XYPosition
  measured :: "PartialDimensions option"
  width :: "jsnum option"
  height :: "jsnum option"
  initialWidth :: "jsnum option"
  initialHeight :: "jsnum option"
  parentId :: "string option"
  origin :: "NodeOrigin option"
  extent :: "NodeExtent option"
  zIndex :: "jsnum option"
  selected :: "bool option"
  dragging :: "bool option"
  resizing :: "bool option"

type_synonym HandleBounds = "Rect list \<times> Rect list"

record NodeInternals =
  positionAbsolute :: XYPosition
  handleBounds :: "HandleBounds option"
  z :: jsnum
  userNode :: NodeBase

text \<open>An internal node has the user node's properties and \<^verbatim>\<open>internals\<close>.\<close>

record InternalNodeBase = NodeBase +
  internals :: NodeInternals

text \<open>\<^verbatim>\<open>a ?? b\<close> on optional values.\<close>

definition nullish :: "'a option \<Rightarrow> 'a option \<Rightarrow> 'a option" where
  "nullish a b = (case a of None \<Rightarrow> b | Some v \<Rightarrow> Some v)"

definition nullishOr :: "'a option \<Rightarrow> 'a \<Rightarrow> 'a" where
  "nullishOr a d = (case a of None \<Rightarrow> d | Some v \<Rightarrow> v)"

text \<open>
  \<^verbatim>\<open>getNodeDimensions\<close>:
  \<^verbatim>\<open>node.measured?.width ?? node.width ?? node.initialWidth ?? 0\<close>, and the same for
  the height. It reads user nodes and internal nodes alike.
\<close>

definition getNodeDimensions :: "'a NodeBase_scheme \<Rightarrow> Dimensions" where
  "getNodeDimensions node =
     \<lparr>dim_width = nullishOr (nullish (nullish (Option.bind (measured node) pd_width)
                     (width node)) (initialWidth node)) (Fin 0),
      dim_height = nullishOr (nullish (nullish (Option.bind (measured node) pd_height)
                     (height node)) (initialHeight node)) (Fin 0)\<rparr>"

definition asPartial :: "Dimensions \<Rightarrow> PartialDimensions" where
  "asPartial d = \<lparr>pd_width = Some (dim_width d), pd_height = Some (dim_height d)\<rparr>"

text \<open>\<^verbatim>\<open>getNodePositionWithOrigin(node, nodeOrigin = [0, 0])\<close>\<close>

definition getNodePositionWithOrigin :: "'a NodeBase_scheme \<Rightarrow> NodeOrigin option \<Rightarrow> XYPosition" where
  "getNodePositionWithOrigin node nodeOrigin =
     (let d = getNodeDimensions node;
          origin' = nullishOr (origin node) (nullishOr nodeOrigin (Fin 0, Fin 0));
          offsetX = jmul (dim_width d) (fst origin');
          offsetY = jmul (dim_height d) (snd origin')
      in \<lparr>pos_x = jsub (pos_x (position node)) offsetX,
          pos_y = jsub (pos_y (position node)) offsetY\<rparr>)"

text \<open>
  \<^verbatim>\<open>nodeToBox(node, nodeOrigin = [0, 0])\<close> takes a user node or an internal node;
  \<^verbatim>\<open>isInternalNodeBase\<close> tells them apart by the property \<^verbatim>\<open>internals\<close>, here by the
  injection of the sum.
\<close>

definition nodeToBox :: "NodeBase + InternalNodeBase \<Rightarrow> NodeOrigin option \<Rightarrow> Box" where
  "nodeToBox node nodeOrigin =
     (let p = (case node of Inl n \<Rightarrow> getNodePositionWithOrigin n nodeOrigin
                          | Inr i \<Rightarrow> positionAbsolute (internals i));
          d = (case node of Inl n \<Rightarrow> getNodeDimensions n | Inr i \<Rightarrow> getNodeDimensions i)
      in \<lparr>box_x = pos_x p, box_y = pos_y p,
          box_x2 = jadd (pos_x p) (dim_width d), box_y2 = jadd (pos_y p) (dim_height d)\<rparr>)"

section \<open>Bounds of nodes\<close>

text \<open>
  A lookup is a JavaScript \<^verbatim>\<open>Map\<close>: an association list in insertion order with
  distinct keys, read with \<open>map_of\<close> and written with \<open>AList.update\<close> (a present key
  keeps its place, a new key goes to the end).
\<close>

type_synonym NodeLookup = "(string \<times> InternalNodeBase) list"

datatype NodeOrId = IsNode NodeBase | IsInternal InternalNodeBase | IsId string

record GetNodesBoundsParams =
  gnb_nodeOrigin :: "NodeOrigin option"
  gnb_nodeLookup :: "NodeLookup option"

text \<open>
  \<^verbatim>\<open>getNodesBounds(nodes, params)\<close>. The warning printed in development mode
  changes no value and is left out.
\<close>

definition currentNodeOf :: "GetNodesBoundsParams \<Rightarrow> NodeOrId \<Rightarrow> (NodeBase + InternalNodeBase) option" where
  "currentNodeOf params nodeOrId =
     (case gnb_nodeLookup params of
        None \<Rightarrow> (case nodeOrId of IsId s \<Rightarrow> None | IsNode n \<Rightarrow> Some (Inl n)
                 | IsInternal i \<Rightarrow> Some (Inr i))
      | Some lookup \<Rightarrow>
          (case nodeOrId of
             IsId s \<Rightarrow> map_option Inr (map_of lookup s)
           | IsNode n \<Rightarrow> map_option Inr (map_of lookup (elem_id n))
           | IsInternal i \<Rightarrow> Some (Inr i)))"

definition getNodesBounds :: "NodeOrId list \<Rightarrow> GetNodesBoundsParams \<Rightarrow> Rect" where
  "getNodesBounds nodes params =
     (if length nodes = 0
      then \<lparr>rect_x = Fin 0, rect_y = Fin 0, rect_width = Fin 0, rect_height = Fin 0\<rparr>
      else boxToRect
        (foldl (\<lambda>currBox nodeOrId.
             let nodeBox = (case currentNodeOf params nodeOrId of
                              Some currentNode \<Rightarrow> nodeToBox currentNode (gnb_nodeOrigin params)
                            | None \<Rightarrow> \<lparr>box_x = Fin 0, box_y = Fin 0, box_x2 = Fin 0, box_y2 = Fin 0\<rparr>)
             in getBoundsOfBoxes currBox nodeBox)
           \<lparr>box_x = PosInf, box_y = PosInf, box_x2 = NegInf, box_y2 = NegInf\<rparr> nodes))"

text \<open>\<^verbatim>\<open>getInternalNodesBounds(nodeLookup, params = {})\<close>; only \<^verbatim>\<open>params.filter\<close> is read.\<close>

definition getInternalNodesBounds ::
  "NodeLookup \<Rightarrow> (InternalNodeBase \<Rightarrow> bool) option \<Rightarrow> Rect" where
  "getInternalNodesBounds nodeLookup filter' =
     (if length nodeLookup = 0
      then \<lparr>rect_x = Fin 0, rect_y = Fin 0, rect_width = Fin 0, rect_height = Fin 0\<rparr>
      else boxToRect
        (foldl (\<lambda>box node.
             if (case filter' of None \<Rightarrow> True | Some f \<Rightarrow> f node)
             then getBoundsOfBoxes box (nodeToBox (Inr node) None)
             else box)
           \<lparr>box_x = PosInf, box_y = PosInf, box_x2 = NegInf, box_y2 = NegInf\<rparr>
           (map snd nodeLookup)))"

text \<open>A node to test with: everything optional is absent.\<close>

definition plainNode :: "nat \<Rightarrow> string \<Rightarrow> real \<Rightarrow> real \<Rightarrow> NodeBase" where
  "plainNode r i vx vy =
     \<lparr>ref = r, elem_id = i, position = \<lparr>pos_x = Fin vx, pos_y = Fin vy\<rparr>, measured = None,
      width = None, height = None, initialWidth = None, initialHeight = None,
      parentId = None, origin = None, extent = None, zIndex = None, selected = None,
      dragging = None, resizing = None\<rparr>"

definition plainInternal :: "nat \<Rightarrow> NodeBase \<Rightarrow> InternalNodeBase" where
  "plainInternal r n =
     NodeBase.extend (n\<lparr>ref := r, measured := Some \<lparr>pd_width = None, pd_height = None\<rparr>\<rparr>)
       (InternalNodeBase.fields
          \<lparr>positionAbsolute = position n, handleBounds = None, z = Fin 0, userNode = n\<rparr>)"

section \<open>Resizing\<close>

text \<open>\<^verbatim>\<open>controlPosition.includes(sub)\<close>: \<open>sub\<close> occurs in the string.\<close>

fun includes_str :: "string \<Rightarrow> string \<Rightarrow> bool" where
  "includes_str [] sub = (sub = [])"
| "includes_str (c # cs) sub = (take (length sub) (c # cs) = sub \<or> includes_str cs sub)"

record ControlDirection =
  isHorizontal :: bool
  isVertical :: bool
  affectsX :: bool
  affectsY :: bool

definition getControlDirection :: "string \<Rightarrow> ControlDirection" where
  "getControlDirection controlPosition =
     \<lparr>isHorizontal = (includes_str controlPosition ''right'' \<or> includes_str controlPosition ''left''),
      isVertical = (includes_str controlPosition ''bottom'' \<or> includes_str controlPosition ''top''),
      affectsX = includes_str controlPosition ''left'',
      affectsY = includes_str controlPosition ''top''\<rparr>"

record StartValues =
  sv_width :: jsnum
  sv_height :: jsnum
  sv_x :: jsnum
  sv_y :: jsnum
  pointerX :: jsnum
  pointerY :: jsnum
  aspectRatio :: jsnum

text \<open>Of the pointer position only the snapped coordinates are read.\<close>

record PointerPosition =
  xSnapped :: jsnum
  ySnapped :: jsnum

record Boundaries =
  minWidth :: jsnum
  maxWidth :: jsnum
  minHeight :: jsnum
  maxHeight :: jsnum

definition getLowerExtentClamp :: "jsnum \<Rightarrow> jsnum \<Rightarrow> jsnum" where
  "getLowerExtentClamp lowerExtent lowerBound = Math_max (Fin 0) (jsub lowerBound lowerExtent)"

definition getUpperExtentClamp :: "jsnum \<Rightarrow> jsnum \<Rightarrow> jsnum" where
  "getUpperExtentClamp upperExtent upperBound = Math_max (Fin 0) (jsub upperExtent upperBound)"

definition getSizeClamp :: "jsnum \<Rightarrow> jsnum \<Rightarrow> jsnum \<Rightarrow> jsnum" where
  "getSizeClamp size' minSize maxSize =
     Math_max (Math_max (Fin 0) (jsub minSize size')) (jsub size' maxSize)"

definition xor_bool :: "bool \<Rightarrow> bool \<Rightarrow> bool" where
  "xor_bool a b = (if a then \<not> b else b)"

text \<open>
  \<^verbatim>\<open>getDimensionsAfterResize\<close>, block by block. The variables the source assigns
  more than once (\<^verbatim>\<open>clampX\<close>, \<^verbatim>\<open>clampY\<close>, \<^verbatim>\<open>distX\<close>, \<^verbatim>\<open>distY\<close>,
  \<^verbatim>\<open>affectsX\<close>, \<^verbatim>\<open>affectsY\<close>) are numbered in the order of their assignments.
\<close>

definition getDimensionsAfterResize ::
  "StartValues \<Rightarrow> ControlDirection \<Rightarrow> PointerPosition \<Rightarrow> Boundaries \<Rightarrow> bool \<Rightarrow> NodeOrigin
     \<Rightarrow> CoordinateExtent option \<Rightarrow> CoordinateExtent option \<Rightarrow> Rect" where
  "getDimensionsAfterResize startValues controlDirection pointerPosition boundaries
       keepAspectRatio nodeOrigin extent' childExtent =
     (let affectsX0 = affectsX controlDirection;
          affectsY0 = affectsY controlDirection;
          isHorizontal' = isHorizontal controlDirection;
          isVertical' = isVertical controlDirection;
          isDiagonal = (isHorizontal' \<and> isVertical');
          startX = sv_x startValues;
          startY = sv_y startValues;
          startWidth = sv_width startValues;
          startHeight = sv_height startValues;
          ratio = aspectRatio startValues;
          distX0 = Math_floor (if isHorizontal'
                     then jsub (xSnapped pointerPosition) (pointerX startValues) else Fin 0);
          distY0 = Math_floor (if isVertical'
                     then jsub (ySnapped pointerPosition) (pointerY startValues) else Fin 0);
          newWidth = jadd startWidth (if affectsX0 then jneg distX0 else distX0);
          newHeight = jadd startHeight (if affectsY0 then jneg distY0 else distY0);
          originOffsetX = jmul (jneg (fst nodeOrigin)) startWidth;
          originOffsetY = jmul (jneg (snd nodeOrigin)) startHeight;
          clampX0 = getSizeClamp newWidth (minWidth boundaries) (maxWidth boundaries);
          clampY0 = getSizeClamp newHeight (minHeight boundaries) (maxHeight boundaries);
          clampX1 = (case extent' of None \<Rightarrow> clampX0
            | Some e \<Rightarrow> Math_max clampX0
                (if affectsX0 \<and> jlt distX0 (Fin 0)
                 then getLowerExtentClamp (jadd (jadd startX distX0) originOffsetX) (fst (fst e))
                 else if \<not> affectsX0 \<and> jlt (Fin 0) distX0
                 then getUpperExtentClamp (jadd (jadd startX newWidth) originOffsetX) (fst (snd e))
                 else Fin 0));
          clampY1 = (case extent' of None \<Rightarrow> clampY0
            | Some e \<Rightarrow> Math_max clampY0
                (if affectsY0 \<and> jlt distY0 (Fin 0)
                 then getLowerExtentClamp (jadd (jadd startY distY0) originOffsetY) (snd (fst e))
                 else if \<not> affectsY0 \<and> jlt (Fin 0) distY0
                 then getUpperExtentClamp (jadd (jadd startY newHeight) originOffsetY) (snd (snd e))
                 else Fin 0));
          clampX2 = (case childExtent of None \<Rightarrow> clampX1
            | Some e \<Rightarrow> Math_max clampX1
                (if affectsX0 \<and> jlt (Fin 0) distX0
                 then getUpperExtentClamp (jadd startX distX0) (fst (fst e))
                 else if \<not> affectsX0 \<and> jlt distX0 (Fin 0)
                 then getLowerExtentClamp (jadd startX newWidth) (fst (snd e))
                 else Fin 0));
          clampY2 = (case childExtent of None \<Rightarrow> clampY1
            | Some e \<Rightarrow> Math_max clampY1
                (if affectsY0 \<and> jlt (Fin 0) distY0
                 then getUpperExtentClamp (jadd startY distY0) (snd (fst e))
                 else if \<not> affectsY0 \<and> jlt distY0 (Fin 0)
                 then getLowerExtentClamp (jadd startY newHeight) (snd (snd e))
                 else Fin 0));
          clampX3 = (if keepAspectRatio \<and> isHorizontal' then
            (let aspectHeightClamp =
                   jmul (getSizeClamp (jdiv newWidth ratio) (minHeight boundaries)
                           (maxHeight boundaries)) ratio;
                 cx = Math_max clampX2 aspectHeightClamp;
                 cx' = (case extent' of None \<Rightarrow> cx
                   | Some e \<Rightarrow> Math_max cx
                       (if (\<not> affectsX0 \<and> \<not> affectsY0) \<or> (affectsX0 \<and> \<not> affectsY0 \<and> isDiagonal)
                        then jmul (getUpperExtentClamp
                               (jadd (jadd startY originOffsetY) (jdiv newWidth ratio))
                               (snd (snd e))) ratio
                        else jmul (getLowerExtentClamp
                               (jadd (jadd startY originOffsetY)
                                  (jdiv (if affectsX0 then distX0 else jneg distX0) ratio))
                               (snd (fst e))) ratio))
             in (case childExtent of None \<Rightarrow> cx'
                   | Some e \<Rightarrow> Math_max cx'
                       (if (\<not> affectsX0 \<and> \<not> affectsY0) \<or> (affectsX0 \<and> \<not> affectsY0 \<and> isDiagonal)
                        then jmul (getLowerExtentClamp (jadd startY (jdiv newWidth ratio))
                               (snd (snd e))) ratio
                        else jmul (getUpperExtentClamp
                               (jadd startY (jdiv (if affectsX0 then distX0 else jneg distX0) ratio))
                               (snd (fst e))) ratio)))
            else clampX2);
          clampY3 = (if keepAspectRatio \<and> isVertical' then
            (let aspectWidthClamp =
                   jdiv (getSizeClamp (jmul newHeight ratio) (minWidth boundaries)
                           (maxWidth boundaries)) ratio;
                 cy = Math_max clampY2 aspectWidthClamp;
                 cy' = (case extent' of None \<Rightarrow> cy
                   | Some e \<Rightarrow> Math_max cy
                       (if (\<not> affectsX0 \<and> \<not> affectsY0) \<or> (affectsY0 \<and> \<not> affectsX0 \<and> isDiagonal)
                        then jdiv (getUpperExtentClamp
                               (jadd (jadd startX (jmul newHeight ratio)) originOffsetX)
                               (fst (snd e))) ratio
                        else jdiv (getLowerExtentClamp
                               (jadd (jadd startX
                                  (jmul (if affectsY0 then distY0 else jneg distY0) ratio))
                                  originOffsetX)
                               (fst (fst e))) ratio))
             in (case childExtent of None \<Rightarrow> cy'
                   | Some e \<Rightarrow> Math_max cy'
                       (if (\<not> affectsX0 \<and> \<not> affectsY0) \<or> (affectsY0 \<and> \<not> affectsX0 \<and> isDiagonal)
                        then jdiv (getLowerExtentClamp (jadd startX (jmul newHeight ratio))
                               (fst (snd e))) ratio
                        else jdiv (getUpperExtentClamp
                               (jadd startX (jmul (if affectsY0 then distY0 else jneg distY0) ratio))
                               (fst (fst e))) ratio)))
            else clampY2);
          distY1 = jadd distY0 (if jlt distY0 (Fin 0) then clampY3 else jneg clampY3);
          distX1 = jadd distX0 (if jlt distX0 (Fin 0) then clampX3 else jneg clampX3);
          distY2 = (if keepAspectRatio then
                      (if isDiagonal then
                         (if jlt (jmul newHeight ratio) newWidth
                          then jdiv (if xor_bool affectsX0 affectsY0 then jneg distX1 else distX1) ratio
                          else distY1)
                       else (if isHorizontal' then jdiv distX1 ratio else distY1))
                    else distY1);
          distX2 = (if keepAspectRatio then
                      (if isDiagonal then
                         (if jlt (jmul newHeight ratio) newWidth
                          then distX1
                          else jmul (if xor_bool affectsX0 affectsY0 then jneg distY1 else distY1) ratio)
                       else (if isHorizontal' then distX1 else jmul distY1 ratio))
                    else distX1);
          affectsY1 = (if keepAspectRatio \<and> \<not> isDiagonal \<and> isHorizontal'
                       then affectsX0 else affectsY0);
          affectsX1 = (if keepAspectRatio \<and> \<not> isDiagonal \<and> \<not> isHorizontal'
                       then affectsY0 else affectsX0);
          x = (if affectsX1 then jadd startX distX2 else startX);
          y = (if affectsY1 then jadd startY distY2 else startY)
      in \<lparr>rect_x = jadd (jmul (jmul (fst nodeOrigin) distX2)
                        (if \<not> affectsX1 then Fin 1 else Fin (- 1))) x,
          rect_y = jadd (jmul (jmul (snd nodeOrigin) distY2)
                        (if \<not> affectsY1 then Fin 1 else Fin (- 1))) y,
          rect_width = jadd startWidth (if affectsX1 then jneg distX2 else distX2),
          rect_height = jadd startHeight (if affectsY1 then jneg distY2 else distY2)\<rparr>)"

section \<open>Changes\<close>

text \<open>
  The change records: \<^verbatim>\<open>add\<close> carries the item and an optional index,
  \<^verbatim>\<open>remove\<close> an id, \<^verbatim>\<open>replace\<close> an id and the item, \<^verbatim>\<open>select\<close> an id and the
  flag, \<^verbatim>\<open>position\<close> an id and the optional \<^verbatim>\<open>position\<close> and \<^verbatim>\<open>dragging\<close>,
  \<^verbatim>\<open>dimensions\<close> an id and the optional \<^verbatim>\<open>dimensions\<close>, \<^verbatim>\<open>resizing\<close> and
  \<^verbatim>\<open>setAttributes\<close>. An index is a natural number.
\<close>

datatype Change =
    AddChange NodeBase "nat option"
  | RemoveChange string
  | ReplaceChange string NodeBase
  | SelectChange string bool
  | PositionChange string "XYPosition option" "bool option"
  | DimensionsChange string "Dimensions option" "bool option" "bool option"

text \<open>\<^verbatim>\<open>change.id\<close>; an \<^verbatim>\<open>add\<close> change has none.\<close>

fun change_id :: "Change \<Rightarrow> string option" where
  "change_id (AddChange item' index) = None"
| "change_id (RemoveChange i) = Some i"
| "change_id (ReplaceChange i item') = Some i"
| "change_id (SelectChange i b) = Some i"
| "change_id (PositionChange i p d) = Some i"
| "change_id (DimensionsChange i d r s) = Some i"

text \<open>\<^verbatim>\<open>change.item\<close>, of an \<^verbatim>\<open>add\<close> or a \<^verbatim>\<open>replace\<close> change.\<close>

fun change_item :: "Change \<Rightarrow> NodeBase option" where
  "change_item (AddChange item' index) = Some item'"
| "change_item (ReplaceChange i item') = Some item'"
| "change_item c = None"

fun isRemoveOrReplace :: "Change \<Rightarrow> bool" where
  "isRemoveOrReplace (RemoveChange i) = True"
| "isRemoveOrReplace (ReplaceChange i item') = True"
| "isRemoveOrReplace c = False"

text \<open>
  \<^verbatim>\<open>applyChange(change, element)\<close> updates the element in place; here it returns the
  updated element, which keeps its identity.
\<close>

fun applyChange :: "Change \<Rightarrow> NodeBase \<Rightarrow> NodeBase" where
  "applyChange (SelectChange i b) element = element\<lparr>selected := Some b\<rparr>"
| "applyChange (PositionChange i p d) element =
     (let e1 = (case p of None \<Rightarrow> element | Some q \<Rightarrow> element\<lparr>position := q\<rparr>)
      in (case d of None \<Rightarrow> e1 | Some b \<Rightarrow> e1\<lparr>dragging := Some b\<rparr>))"
| "applyChange (DimensionsChange i d r s) element =
     (let e1 = (case d of None \<Rightarrow> element
                | Some dims \<Rightarrow>
                    (let e2 = element\<lparr>measured :=
                                Some \<lparr>pd_width = Some (dim_width dims),
                                      pd_height = Some (dim_height dims)\<rparr>\<rparr>
                     in if s = Some True
                        then e2\<lparr>width := Some (dim_width dims), height := Some (dim_height dims)\<rparr>
                        else e2))
      in (case r of None \<Rightarrow> e1 | Some b \<Rightarrow> e1\<lparr>resizing := Some b\<rparr>))"
| "applyChange c element = element"

text \<open>
  The first loop of \<^verbatim>\<open>applyChanges\<close>: one step files a change under its id in
  \<^verbatim>\<open>changesMap\<close>, or among \<^verbatim>\<open>addItemChanges\<close>.
\<close>

type_synonym ChangesMap = "(string \<times> Change list) list"

fun queueChange :: "ChangesMap \<times> (NodeBase \<times> nat option) list \<Rightarrow> Change
    \<Rightarrow> ChangesMap \<times> (NodeBase \<times> nat option) list" where
  "queueChange (changesMap, addItemChanges) (AddChange item' index) =
     (changesMap, addItemChanges @ [(item', index)])"
| "queueChange (changesMap, addItemChanges) (RemoveChange i) =
     (AList.update i [RemoveChange i] changesMap, addItemChanges)"
| "queueChange (changesMap, addItemChanges) (ReplaceChange i item') =
     (AList.update i [ReplaceChange i item'] changesMap, addItemChanges)"
| "queueChange (changesMap, addItemChanges) change =
     (case change_id change of
        None \<Rightarrow> (changesMap, addItemChanges)
      | Some i \<Rightarrow>
         (case map_of changesMap i of
            Some elementChanges \<Rightarrow>
              (AList.update i (elementChanges @ [change]) changesMap, addItemChanges)
          | None \<Rightarrow> (AList.update i [change] changesMap, addItemChanges)))"

datatype error = TypeError

text \<open>
  One round of the second loop: what the element contributes to \<^verbatim>\<open>updatedElements\<close>.
  A shallow copy \<^verbatim>\<open>{ ...obj }\<close> is the object at the next free address. Reading
  \<^verbatim>\<open>changes[0].type\<close> of an empty array would throw.
\<close>

definition updateElement :: "ChangesMap \<Rightarrow> NodeBase \<Rightarrow> nat \<Rightarrow> error + (NodeBase list \<times> nat)" where
  "updateElement changesMap element a =
     (case map_of changesMap (elem_id element) of
        None \<Rightarrow> Inr ([element], a)
      | Some [] \<Rightarrow> Inl TypeError
      | Some (c # cs) \<Rightarrow>
          (case c of
             RemoveChange i \<Rightarrow> Inr ([], a)
           | ReplaceChange i item' \<Rightarrow> Inr ([item'\<lparr>ref := a\<rparr>], Suc a)
           | _ \<Rightarrow> Inr ([foldl (\<lambda>updatedElement change. applyChange change updatedElement)
                          (element\<lparr>ref := a\<rparr>) (c # cs)], Suc a)))"

fun scanElements :: "(NodeBase \<Rightarrow> nat \<Rightarrow> error + (NodeBase list \<times> nat)) \<Rightarrow> NodeBase list
    \<Rightarrow> NodeBase list \<Rightarrow> nat \<Rightarrow> error + (NodeBase list \<times> nat)" where
  "scanElements f [] updatedElements a = Inr (updatedElements, a)"
| "scanElements f (element # elements) updatedElements a =
     (case f element a of
        Inl e \<Rightarrow> Inl e
      | Inr (out, a') \<Rightarrow> scanElements f elements (updatedElements @ out) a')"

text \<open>
  The added items go in last: \<^verbatim>\<open>splice(index, 0, copy)\<close> when the change has an
  index (an index beyond the end appends), \<^verbatim>\<open>push(copy)\<close> otherwise.
\<close>

fun addItems :: "(NodeBase \<times> nat option) list \<Rightarrow> NodeBase list \<Rightarrow> nat \<Rightarrow> NodeBase list \<times> nat" where
  "addItems [] updatedElements a = (updatedElements, a)"
| "addItems ((item', Some index) # rest) updatedElements a =
     addItems rest (take index updatedElements @ [item'\<lparr>ref := a\<rparr>] @ drop index updatedElements)
       (Suc a)"
| "addItems ((item', None) # rest) updatedElements a =
     addItems rest (updatedElements @ [item'\<lparr>ref := a\<rparr>]) (Suc a)"

definition applyChanges :: "Change list \<Rightarrow> NodeBase list \<Rightarrow> nat \<Rightarrow> error + (NodeBase list \<times> nat)" where
  "applyChanges changes elements a =
     (let (changesMap, addItemChanges) = foldl queueChange ([], []) changes
      in (case scanElements (updateElement changesMap) elements [] a of
            Inl e \<Rightarrow> Inl e
          | Inr (updatedElements, a') \<Rightarrow> Inr (addItems addItemChanges updatedElements a')))"

definition createSelectionChange :: "string \<Rightarrow> bool \<Rightarrow> Change" where
  "createSelectionChange i selected' = SelectChange i selected'"

text \<open>
  \<^verbatim>\<open>getSelectionChanges(items, selectedIds, mutateItem)\<close> returns the changes; the
  lookup it may have mutated is returned with them.
\<close>

fun getSelectionChanges :: "(string \<times> 'a NodeBase_scheme) list \<Rightarrow> string set \<Rightarrow> bool
    \<Rightarrow> Change list \<times> (string \<times> 'a NodeBase_scheme) list" where
  "getSelectionChanges [] selectedIds mutateItem = ([], [])"
| "getSelectionChanges ((i, item') # items) selectedIds mutateItem =
     (let willBeSelected = (i \<in> selectedIds);
          (changes, items') = getSelectionChanges items selectedIds mutateItem
      in if \<not> (selected item' = None \<and> \<not> willBeSelected) \<and> selected item' \<noteq> Some willBeSelected
         then (createSelectionChange (elem_id item') willBeSelected # changes,
               (i, if mutateItem then item'\<lparr>selected := Some willBeSelected\<rparr> else item') # items')
         else (changes, (i, item') # items'))"

text \<open>
  A lookup handed to the diff holds internal nodes, which wrap the user's node, or the
  elements themselves (edges). \<^verbatim>\<open>lookupItem?.internals?.userNode ?? lookupItem\<close>:
\<close>

type_synonym ElementLookup = "(string \<times> (NodeBase + InternalNodeBase)) list"

fun storeItemOf :: "NodeBase + InternalNodeBase \<Rightarrow> NodeBase" where
  "storeItemOf (Inl element) = element"
| "storeItemOf (Inr node) = userNode (internals node)"

text \<open>
  \<^verbatim>\<open>getElementsDiffChanges({ items, lookup })\<close>: \<open>diffItem\<close> is one round of the loop
  over \<^verbatim>\<open>items.entries()\<close>, \<^verbatim>\<open>storeItem !== item\<close> compares identities.
\<close>

definition diffItem :: "ElementLookup \<Rightarrow> nat \<times> NodeBase \<Rightarrow> Change list" where
  "diffItem lookup = (\<lambda>(index, item').
     (let storeItem = map_option storeItemOf (map_of lookup (elem_id item'))
      in (case storeItem of None \<Rightarrow> []
          | Some s \<Rightarrow> if ref s \<noteq> ref item' then [ReplaceChange (elem_id item') item'] else [])
         @ (if storeItem = None then [AddChange item' (Some index)] else [])))"

definition getElementsDiffChanges :: "NodeBase list \<Rightarrow> ElementLookup \<Rightarrow> Change list" where
  "getElementsDiffChanges items lookup =
     (let itemsLookup = foldl (\<lambda>m item'. AList.update (elem_id item') item' m) [] items
      in concat (map (diffItem lookup) (enumerate 0 items))
         @ concat (map (\<lambda>(i, lookupItem).
                     if map_of itemsLookup i = None then [RemoveChange i] else []) lookup))"

section \<open>Change application as the specification words it\<close>

text \<open>
  The changes that count for an id: a \<^verbatim>\<open>remove\<close> or \<^verbatim>\<open>replace\<close> change discards
  every other change queued for the id, whether it came before or after, and of several
  such changes the last one wins; without one, all the changes for the id stay, in the
  order of their arrival.
\<close>

definition effectiveChanges :: "string \<Rightarrow> Change list \<Rightarrow> Change list" where
  "effectiveChanges i changes =
     (let queued = filter (\<lambda>c. change_id c = Some i) changes;
          superseding = filter isRemoveOrReplace queued
      in if superseding = [] then queued else [last superseding])"

text \<open>
  An element without changes passes through as it is, a removed element is dropped, a
  replaced element gives way to a shallow copy of the replacement, and any other element
  is copied once, the copy taking the changes one after the other.
\<close>

definition updateElement_spec :: "Change list \<Rightarrow> NodeBase \<Rightarrow> nat \<Rightarrow> error + (NodeBase list \<times> nat)" where
  "updateElement_spec changes element a =
     (let effective = effectiveChanges (elem_id element) changes
      in if effective = [] then Inr ([element], a)
         else (case hd effective of
                 RemoveChange i \<Rightarrow> Inr ([], a)
               | ReplaceChange i item' \<Rightarrow> Inr ([item'\<lparr>ref := a\<rparr>], Suc a)
               | _ \<Rightarrow> Inr ([foldl (\<lambda>copy change. applyChange change copy)
                              (element\<lparr>ref := a\<rparr>) effective], Suc a)))"

definition applyChanges_spec :: "Change list \<Rightarrow> NodeBase list \<Rightarrow> nat \<Rightarrow> error + (NodeBase list \<times> nat)" where
  "applyChanges_spec changes elements a =
     (case scanElements (updateElement_spec changes) elements [] a of
        Inl e \<Rightarrow> Inl e
      | Inr (updatedElements, a') \<Rightarrow>
          Inr (addItems (concat (map (\<lambda>c. case c of AddChange item' index \<Rightarrow> [(item', index)]
                                          | _ \<Rightarrow> []) changes)) updatedElements a'))"

text \<open>What \<^verbatim>\<open>changesMap\<close> holds for an id, and how one change for that id alters it.\<close>

definition queueOf :: "ChangesMap \<Rightarrow> string \<Rightarrow> Change list" where
  "queueOf m i = (case map_of m i of None \<Rightarrow> [] | Some q \<Rightarrow> q)"

definition queueStep :: "Change list \<Rightarrow> Change \<Rightarrow> Change list" where
  "queueStep q c = (if isRemoveOrReplace c then [c] else q @ [c])"

section \<open>The batching queue\<close>

text \<open>
  A queue item is a whole collection or a function on the collection
  (\<^verbatim>\<open>T[] | ((items: T[]) => T[])\<close>).
\<close>

datatype 'a QueueItem = Items "'a list" | Update "'a list \<Rightarrow> 'a list"

text \<open>
  The state of \<^verbatim>\<open>useQueue\<close>: the array \<^verbatim>\<open>queue\<close> closed over by
  \<^verbatim>\<open>createQueue\<close>, the React state \<^verbatim>\<open>serial\<close>, the value of \<^verbatim>\<open>serial\<close> the
  layout effect last ran for, and, to observe the flushes, the arguments of the calls of
  \<^verbatim>\<open>runQueue\<close> so far.
\<close>

record 'a QueueState =
  queue :: "'a QueueItem list"
  serial :: nat
  effectSerial :: nat
  flushed :: "'a QueueItem list list"

text \<open>\<^verbatim>\<open>push\<close>: \<^verbatim>\<open>queue.push(item); cb()\<close>, where \<^verbatim>\<open>cb\<close> increments \<^verbatim>\<open>serial\<close>.\<close>

definition push :: "'a QueueItem \<Rightarrow> 'a QueueState \<Rightarrow> 'a QueueState" where
  "push item' s = s\<lparr>queue := queue s @ [item'], serial := Suc (serial s)\<rparr>"

text \<open>The body of the layout effect: flush the queue if it holds anything, then reset it.\<close>

definition layoutEffect :: "'a QueueState \<Rightarrow> 'a QueueState" where
  "layoutEffect s =
     (let queueItems = queue s
      in if length queueItems \<noteq> 0
         then s\<lparr>flushed := flushed s @ [queueItems], queue := []\<rparr>
         else s)"

text \<open>
  React is not part of the repository. Its contract is modelled by \<open>commit\<close>: the
  synchronous code of a tick runs to its end, then the component renders with the latest
  \<^verbatim>\<open>serial\<close>, and the layout effect, whose dependency list is \<^verbatim>\<open>[serial]\<close>, runs if
  \<^verbatim>\<open>serial\<close> differs from the value it last ran for.
\<close>

definition commit :: "'a QueueState \<Rightarrow> 'a QueueState" where
  "commit s = (if serial s \<noteq> effectSerial s
               then (layoutEffect s)\<lparr>effectSerial := serial s\<rparr> else s)"

text \<open>
  \<^verbatim>\<open>nodeQueueHandler\<close> reads the store, folds the payloads over the current nodes and
  hands the result downstream: to \<^verbatim>\<open>setNodes\<close>, or as a diff to \<^verbatim>\<open>onNodesChange\<close>.
\<close>

record Store =
  st_nodes :: "NodeBase list"
  st_hasDefaultNodes :: bool
  st_hasOnNodesChange :: bool
  st_nodeLookup :: ElementLookup

datatype Downstream = SetNodes "NodeBase list" | OnNodesChange "Change list" | NoCall

definition nextNodes :: "NodeBase list \<Rightarrow> NodeBase QueueItem list \<Rightarrow> NodeBase list" where
  "nextNodes current queueItems =
     foldl (\<lambda>next' payload. case payload of Update f \<Rightarrow> f next' | Items xs \<Rightarrow> xs)
       current queueItems"

definition nodeQueueHandler :: "Store \<Rightarrow> NodeBase QueueItem list \<Rightarrow> Downstream" where
  "nodeQueueHandler store queueItems =
     (let next' = nextNodes (st_nodes store) queueItems
      in if st_hasDefaultNodes store then SetNodes next'
         else if st_hasOnNodesChange store
         then OnNodesChange (getElementsDiffChanges next' (st_nodeLookup store))
         else NoCall)"

section \<open>Adopting the user's nodes\<close>

text \<open>
  \<^verbatim>\<open>defaults: Partial<NodeType>\<close> is spread under the user's node; only the optional
  properties matter, since the node itself always has \<^verbatim>\<open>id\<close> and \<^verbatim>\<open>position\<close> and
  \<^verbatim>\<open>measured\<close> is set anew. A property the node does not have (\<open>None\<close>) is taken from
  the defaults.
\<close>

record NodeDefaults =
  d_width :: "jsnum option"
  d_height :: "jsnum option"
  d_initialWidth :: "jsnum option"
  d_initialHeight :: "jsnum option"
  d_parentId :: "string option"
  d_origin :: "NodeOrigin option"
  d_extent :: "NodeExtent option"
  d_zIndex :: "jsnum option"
  d_selected :: "bool option"
  d_dragging :: "bool option"
  d_resizing :: "bool option"

definition noDefaults :: NodeDefaults where
  "noDefaults = \<lparr>d_width = None, d_height = None, d_initialWidth = None, d_initialHeight = None,
     d_parentId = None, d_origin = None, d_extent = None, d_zIndex = None, d_selected = None,
     d_dragging = None, d_resizing = None\<rparr>"

text \<open>\<^verbatim>\<open>UpdateNodesOptions\<close>: every option may be missing.\<close>

record UpdateNodesOptions =
  o_nodeOrigin :: "NodeOrigin option"
  o_nodeExtent :: "CoordinateExtent option"
  o_elevateNodesOnSelect :: "bool option"
  o_defaults :: "NodeDefaults option"
  o_checkEquality :: "bool option"

text \<open>
  The options after \<^verbatim>\<open>mergeObjects(base, incoming)\<close>: a key of \<^verbatim>\<open>incoming\<close> that
  is not \<^verbatim>\<open>undefined\<close> replaces the one of the base. The base is
  \<^verbatim>\<open>defaultOptions\<close>, extended by \<^verbatim>\<open>checkEquality: true\<close> for
  \<^verbatim>\<open>adoptUserNodes\<close>; \<^verbatim>\<open>defaultOptions\<close> itself has no \<^verbatim>\<open>checkEquality\<close>,
  which is falsy, and no function that merges into it reads the key.
\<close>

record MergedOptions =
  m_nodeOrigin :: NodeOrigin
  m_nodeExtent :: CoordinateExtent
  m_elevateNodesOnSelect :: bool
  m_defaults :: NodeDefaults
  m_checkEquality :: bool

definition defaultOptions :: MergedOptions where
  "defaultOptions =
     \<lparr>m_nodeOrigin = (Fin 0, Fin 0), m_nodeExtent = infiniteExtent,
      m_elevateNodesOnSelect = True, m_defaults = noDefaults, m_checkEquality = False\<rparr>"

definition adoptUserNodesDefaultOptions :: MergedOptions where
  "adoptUserNodesDefaultOptions = defaultOptions\<lparr>m_checkEquality := True\<rparr>"

definition mergeObjects :: "MergedOptions \<Rightarrow> UpdateNodesOptions option \<Rightarrow> MergedOptions" where
  "mergeObjects base incoming =
     (case incoming of
        None \<Rightarrow> base
      | Some inc \<Rightarrow>
          \<lparr>m_nodeOrigin = nullishOr (o_nodeOrigin inc) (m_nodeOrigin base),
           m_nodeExtent = nullishOr (o_nodeExtent inc) (m_nodeExtent base),
           m_elevateNodesOnSelect = nullishOr (o_elevateNodesOnSelect inc) (m_elevateNodesOnSelect base),
           m_defaults = nullishOr (o_defaults inc) (m_defaults base),
           m_checkEquality = nullishOr (o_checkEquality inc) (m_checkEquality base)\<rparr>)"

text \<open>A string in a condition: \<^verbatim>\<open>undefined\<close> and the empty string are falsy.\<close>

definition truthy :: "string option \<Rightarrow> bool" where
  "truthy s = (case s of None \<Rightarrow> False | Some t \<Rightarrow> t \<noteq> [])"

definition calculateZ :: "'a NodeBase_scheme \<Rightarrow> jsnum \<Rightarrow> jsnum" where
  "calculateZ node selectedNodeZ =
     jadd (if isNumeric (zIndex node) then nullishOr (zIndex node) (Fin 0) else Fin 0)
          (if selected node = Some True then selectedNodeZ else Fin 0)"

definition clampPositionToParent :: "XYPosition \<Rightarrow> Dimensions \<Rightarrow> InternalNodeBase \<Rightarrow> XYPosition" where
  "clampPositionToParent childPosition childDimensions parent =
     (let parentWidth = dim_width (getNodeDimensions parent);
          parentHeight = dim_height (getNodeDimensions parent);
          parentX = pos_x (positionAbsolute (internals parent));
          parentY = pos_y (positionAbsolute (internals parent))
      in clampPosition (Some childPosition)
           ((parentX, parentY), (jadd parentX parentWidth, jadd parentY parentHeight))
           (Some (asPartial childDimensions)))"

text \<open>
  \<^verbatim>\<open>calculateChildXYZ\<close> returns \<^verbatim>\<open>{x, y, z}\<close>, here the position and \<open>z\<close>.
  \<^verbatim>\<open>isCoordinateExtent(extent)\<close> holds of an extent that is neither \<^verbatim>\<open>undefined\<close>
  nor \<^verbatim>\<open>'parent'\<close>: the case \<open>ExtentCoordinates\<close>.
\<close>

definition calculateChildXYZ ::
  "InternalNodeBase \<Rightarrow> InternalNodeBase \<Rightarrow> NodeOrigin \<Rightarrow> CoordinateExtent \<Rightarrow> jsnum
     \<Rightarrow> XYPosition \<times> jsnum" where
  "calculateChildXYZ childNode parentNode nodeOrigin nodeExtent selectedNodeZ =
     (let parentX = pos_x (positionAbsolute (internals parentNode));
          parentY = pos_y (positionAbsolute (internals parentNode));
          childDimensions = getNodeDimensions childNode;
          positionWithOrigin = getNodePositionWithOrigin childNode (Some nodeOrigin);
          clampedPosition =
            (case extent childNode of
               Some (ExtentCoordinates e) \<Rightarrow>
                 clampPosition (Some positionWithOrigin) e (Some (asPartial childDimensions))
             | _ \<Rightarrow> positionWithOrigin);
          absolutePosition0 =
            clampPosition (Some \<lparr>pos_x = jadd parentX (pos_x clampedPosition),
                                 pos_y = jadd parentY (pos_y clampedPosition)\<rparr>)
              nodeExtent (Some (asPartial childDimensions));
          absolutePosition =
            (if extent childNode = Some ExtentParent
             then clampPositionToParent absolutePosition0 childDimensions parentNode
             else absolutePosition0);
          childZ = calculateZ childNode selectedNodeZ;
          parentZ = z (internals parentNode)
      in (absolutePosition, if jlt childZ parentZ then parentZ else childZ))"

type_synonym ParentLookup = "(string \<times> (string \<times> InternalNodeBase) list) list"

definition updateParentLookup :: "InternalNodeBase \<Rightarrow> ParentLookup \<Rightarrow> ParentLookup" where
  "updateParentLookup node parentLookup =
     (if \<not> truthy (parentId node) then parentLookup
      else (let p = the (parentId node)
            in (case map_of parentLookup p of
                  Some childNodes \<Rightarrow>
                    AList.update p (AList.update (elem_id node) node childNodes) parentLookup
                | None \<Rightarrow> AList.update p [(elem_id node, node)] parentLookup)))"

text \<open>
  \<^verbatim>\<open>updateChildNode\<close> writes to both lookups and may create one object. A missing
  parent is warned about on the console and nothing is written.
\<close>

definition updateChildNode ::
  "InternalNodeBase \<Rightarrow> NodeLookup \<Rightarrow> ParentLookup \<Rightarrow> UpdateNodesOptions option \<Rightarrow> nat
     \<Rightarrow> NodeLookup \<times> ParentLookup \<times> nat" where
  "updateChildNode node nodeLookup parentLookup options a =
     (let merged = mergeObjects defaultOptions options;
          parentNode = (case parentId node of None \<Rightarrow> None | Some p \<Rightarrow> map_of nodeLookup p)
      in (case parentNode of
            None \<Rightarrow> (nodeLookup, parentLookup, a)
          | Some parent \<Rightarrow>
              (let parentLookup' = updateParentLookup node parentLookup;
                   selectedNodeZ = (if m_elevateNodesOnSelect merged then Fin 1000 else Fin 0);
                   (xy, z') = calculateChildXYZ node parent (m_nodeOrigin merged)
                                (m_nodeExtent merged) selectedNodeZ;
                   positionAbsolute' = positionAbsolute (internals node);
                   positionChanged = (\<not> jeq (pos_x xy) (pos_x positionAbsolute')
                                      \<or> \<not> jeq (pos_y xy) (pos_y positionAbsolute'))
               in if positionChanged \<or> \<not> jeq z' (z (internals node))
                  then (AList.update (elem_id node)
                          (node\<lparr>ref := a,
                                internals := (internals node)
                                  \<lparr>positionAbsolute :=
                                     (if positionChanged then xy else positionAbsolute'),
                                   z := z'\<rparr>\<rparr>)
                          nodeLookup,
                        parentLookup', Suc a)
                  else (nodeLookup, parentLookup', a))))"

text \<open>
  The internal node \<^verbatim>\<open>adoptUserNodes\<close> builds for a user node: a new object at
  address \<open>a\<close>.
\<close>

definition newInternalNode ::
  "MergedOptions \<Rightarrow> NodeBase \<Rightarrow> InternalNodeBase option \<Rightarrow> nat \<Rightarrow> InternalNodeBase" where
  "newInternalNode opts userNode' previous a =
     (let positionWithOrigin = getNodePositionWithOrigin userNode' (Some (m_nodeOrigin opts));
          extent' = (case extent userNode' of
                       Some (ExtentCoordinates e) \<Rightarrow> e | _ \<Rightarrow> m_nodeExtent opts);
          clampedPosition = clampPosition (Some positionWithOrigin) extent'
                              (Some (asPartial (getNodeDimensions userNode')));
          selectedNodeZ = (if m_elevateNodesOnSelect opts then Fin 1000 else Fin 0);
          dflt = m_defaults opts
      in \<lparr>ref = a, elem_id = elem_id userNode', position = position userNode',
          measured = Some \<lparr>pd_width = Option.bind (measured userNode') pd_width,
                           pd_height = Option.bind (measured userNode') pd_height\<rparr>,
          width = nullish (width userNode') (d_width dflt),
          height = nullish (height userNode') (d_height dflt),
          initialWidth = nullish (initialWidth userNode') (d_initialWidth dflt),
          initialHeight = nullish (initialHeight userNode') (d_initialHeight dflt),
          parentId = nullish (parentId userNode') (d_parentId dflt),
          origin = nullish (origin userNode') (d_origin dflt),
          extent = nullish (extent userNode') (d_extent dflt),
          zIndex = nullish (zIndex userNode') (d_zIndex dflt),
          selected = nullish (selected userNode') (d_selected dflt),
          dragging = nullish (dragging userNode') (d_dragging dflt),
          resizing = nullish (resizing userNode') (d_resizing dflt),
          internals =
            \<lparr>positionAbsolute = clampedPosition,
             handleBounds = (if measured userNode' = None then None
                             else Option.bind previous (\<lambda>i. handleBounds (internals i))),
             z = calculateZ userNode' selectedNodeZ,
             userNode = userNode'\<rparr>\<rparr>)"

text \<open>
  One round of the loop of \<^verbatim>\<open>adoptUserNodes\<close>; \<open>tmpLookup\<close> is the copy of the
  lookup taken before it was cleared.
\<close>

definition adoptUserNode ::
  "UpdateNodesOptions option \<Rightarrow> NodeLookup \<Rightarrow> NodeLookup \<times> ParentLookup \<times> nat \<Rightarrow> NodeBase
     \<Rightarrow> NodeLookup \<times> ParentLookup \<times> nat" where
  "adoptUserNode options tmpLookup = (\<lambda>(nodeLookup, parentLookup, a) userNode'.
     (let opts = mergeObjects adoptUserNodesDefaultOptions options;
          previous = map_of tmpLookup (elem_id userNode');
          reuse = (m_checkEquality opts \<and>
                   (case previous of None \<Rightarrow> False
                    | Some i \<Rightarrow> ref userNode' = ref (userNode (internals i))));
          internalNode = (if reuse then the previous
                          else newInternalNode opts userNode' previous a);
          a' = (if reuse then a else Suc a);
          nodeLookup' = AList.update (elem_id userNode') internalNode nodeLookup
      in if truthy (parentId userNode')
         then updateChildNode internalNode nodeLookup' parentLookup options a'
         else (nodeLookup', parentLookup, a')))"

definition adoptUserNodes ::
  "NodeBase list \<Rightarrow> NodeLookup \<Rightarrow> ParentLookup \<Rightarrow> UpdateNodesOptions option \<Rightarrow> nat
     \<Rightarrow> NodeLookup \<times> ParentLookup \<times> nat" where
  "adoptUserNodes nodes nodeLookup parentLookup options a =
     foldl (adoptUserNode options nodeLookup) ([], [], a) nodes"





text \<open>
  A lookup is keyed by id when every entry sits under its own id, as every lookup that
  \<^verbatim>\<open>adoptUserNodes\<close> has filled is.
\<close>

definition wellKeyed :: "NodeLookup \<Rightarrow> bool" where
  "wellKeyed lookup = (\<forall>(k, i) \<in> set lookup. elem_id i = k)"

text \<open>
  The internal node one round of \<^verbatim>\<open>adoptUserNodes\<close> sets for a user node, before
  child placement: the previous one, or a new one.
\<close>

definition adoptedNode ::
  "UpdateNodesOptions option \<Rightarrow> NodeLookup \<Rightarrow> NodeBase \<Rightarrow> nat \<Rightarrow> InternalNodeBase" where
  "adoptedNode options tmpLookup userNode' a =
     (let opts = mergeObjects adoptUserNodesDefaultOptions options;
          previous = map_of tmpLookup (elem_id userNode')
      in if m_checkEquality opts \<and>
            (case previous of None \<Rightarrow> False
             | Some i \<Rightarrow> ref userNode' = ref (userNode (internals i)))
         then the previous
         else newInternalNode opts userNode' previous a)"


text \<open>
  Child placement leaves a node alone when the position and \<open>z\<close> it computes are the
  stored ones (\<^verbatim>\<open>positionChanged || z !== node.internals.z\<close> is false).
\<close>

definition placementUnchanged :: "InternalNodeBase \<Rightarrow> InternalNodeBase \<Rightarrow> MergedOptions \<Rightarrow> bool" where
  "placementUnchanged node parent opts =
     (let (xy, z') = calculateChildXYZ node parent (m_nodeOrigin opts) (m_nodeExtent opts)
                       (if m_elevateNodesOnSelect opts then Fin 1000 else Fin 0)
      in jeq (pos_x xy) (pos_x (positionAbsolute (internals node)))
         \<and> jeq (pos_y xy) (pos_y (positionAbsolute (internals node)))
         \<and> jeq z' (z (internals node)))"

text \<open>Nodes to test with: a parent of size \<open>100 \<times> 100\<close>, a child, the parent moved.\<close>

definition parentP :: NodeBase where
  "parentP = (plainNode 0 ''p'' 0 0)\<lparr>width := Some (Fin 100), height := Some (Fin 100)\<rparr>"

definition childC :: NodeBase where
  "childC = (plainNode 1 ''c'' 10 10)\<lparr>parentId := Some ''p''\<rparr>"

definition movedP :: NodeBase where
  "movedP = (plainNode 2 ''p'' 5 5)\<lparr>width := Some (Fin 100), height := Some (Fin 100)\<rparr>"

definition childE :: NodeBase where
  "childE = (plainNode 3 ''e'' 90 (- 5))
     \<lparr>width := Some (Fin 20), height := Some (Fin 20), parentId := Some ''p'',
      extent := Some ExtentParent\<rparr>"

definition internalP :: InternalNodeBase where
  "internalP = newInternalNode adoptUserNodesDefaultOptions parentP None 100"

definition internalC :: InternalNodeBase where
  "internalC = newInternalNode adoptUserNodesDefaultOptions childC None 101"

definition internalE :: InternalNodeBase where
  "internalE = newInternalNode adoptUserNodesDefaultOptions childE None 101"

section \<open>Lookups built from element arrays\<close>

text \<open>
  The edge lookup is filled by \<^verbatim>\<open>edgeLookup.set(edge.id, edge)\<close> for each edge in turn
  (\<^verbatim>\<open>updateConnectionLookup\<close>); the node lookup is the one \<^verbatim>\<open>adoptUserNodes\<close>
  fills, read as a lookup of elements.
\<close>

definition elementLookupOf :: "NodeBase list \<Rightarrow> ElementLookup" where
  "elementLookupOf elements = foldl (\<lambda>m e. AList.update (elem_id e) (Inl e) m) [] elements"

definition asElementLookup :: "NodeLookup \<Rightarrow> ElementLookup" where
  "asElementLookup nodeLookup = map (\<lambda>(i, node). (i, Inr node)) nodeLookup"


definition storesElements :: "ElementLookup \<Rightarrow> NodeBase list \<Rightarrow> bool" where
  "storesElements lookup elements =
     (map fst lookup = map elem_id elements
      \<and> map (\<lambda>(i, entry). ref (storeItemOf entry)) lookup = map ref elements)"



section \<open>Properties of the number model\<close>



section \<open>Clamping a position\<close>



section \<open>Bounds of an empty selection\<close>

lemma getNodesBounds_empty:
  "getNodesBounds [] params
     = \<lparr>rect_x = Fin 0, rect_y = Fin 0, rect_width = Fin 0, rect_height = Fin 0\<rparr>"
  by (simp add: getNodesBounds_def)

lemma getInternalNodesBounds_empty:
  "getInternalNodesBounds [] f
     = \<lparr>rect_x = Fin 0, rect_y = Fin 0, rect_width = Fin 0, rect_height = Fin 0\<rparr>"
  by (simp add: getInternalNodesBounds_def)

lemma foldl_filter_none: "foldl (\<lambda>box node. box) b xs = b"
  by (induction xs) simp_all

lemma getInternalNodesBounds_no_match:
  "nodeLookup \<noteq> [] \<Longrightarrow>
   getInternalNodesBounds nodeLookup (Some (\<lambda>_. False))
     = \<lparr>rect_x = PosInf, rect_y = PosInf, rect_width = NegInf, rect_height = NegInf\<rparr>"
  by (simp add: getInternalNodesBounds_def foldl_filter_none boxToRect_def jsub_def)

text \<open>
  C10. For an empty node array \<^verbatim>\<open>getNodesBounds\<close> returns the zero rectangle, and so
  does \<^verbatim>\<open>getInternalNodesBounds\<close> for an empty lookup (\<open>getNodesBounds_empty\<close>,
  \<open>getInternalNodesBounds_empty\<close>). For a lookup that is not empty and a filter that
  matches no node, the guard on the size of the lookup does not fire, the fold leaves the
  initial box untouched, and the result has infinite coordinates: \<open>x = y = Infinity\<close> and
  \<open>width = height = -Infinity\<close> (\<open>getInternalNodesBounds_no_match\<close>; here for a lookup
  of one node).
\<close>

theorem getInternalNodesBounds_filter_none_infinite:
  "getInternalNodesBounds [(''a'', plainInternal 1 (plainNode 0 ''a'' 10 20))] (Some (\<lambda>_. False))
     = \<lparr>rect_x = PosInf, rect_y = PosInf, rect_width = NegInf, rect_height = NegInf\<rparr>"
  by (simp add: getInternalNodesBounds_def boxToRect_def jsub_def)

section \<open>Resizing with a locked aspect ratio\<close>

lemma getSizeClamp_slack:
  "mn \<le> s \<Longrightarrow> s \<le> mx \<Longrightarrow> getSizeClamp (Fin s) (Fin mn) (Fin mx) = Fin 0"
  by (simp add: getSizeClamp_def Math_max_def jsub_def)

lemma getControlDirection_bottom_right:
  "getControlDirection ''bottom-right''
     = \<lparr>isHorizontal = True, isVertical = True, affectsX = False, affectsY = False\<rparr>"
  by (simp add: getControlDirection_def)

text \<open>
  C7. A node of size \<open>200 \<times> 100\<close> (aspect ratio \<open>2\<close>) is resized from its bottom-right
  handle with the aspect ratio kept, no extent, no child extent, origin \<open>[0, 0]\<close> and
  boundaries that do not bind. A pointer that has moved by \<open>(50, 0)\<close> gives the width
  \<open>250\<close> and the height \<open>125\<close>; the position stays.
\<close>

theorem getDimensionsAfterResize_keeps_ratio:
  assumes "mnW \<le> 200" and "250 \<le> mxW" and "mnH \<le> 100" and "125 \<le> mxH"
  shows "getDimensionsAfterResize
           \<lparr>sv_width = Fin 200, sv_height = Fin 100, sv_x = Fin sx, sv_y = Fin sy,
            pointerX = Fin px, pointerY = Fin py, aspectRatio = Fin 2\<rparr>
           (getControlDirection ''bottom-right'')
           \<lparr>xSnapped = Fin (px + 50), ySnapped = Fin py\<rparr>
           \<lparr>minWidth = Fin mnW, maxWidth = Fin mxW, minHeight = Fin mnH, maxHeight = Fin mxH\<rparr>
           True (Fin 0, Fin 0) None None
         = \<lparr>rect_x = Fin sx, rect_y = Fin sy, rect_width = Fin 250, rect_height = Fin 125\<rparr>"
proof -
  have w: "getSizeClamp (Fin 250) (Fin mnW) (Fin mxW) = Fin 0"
    and h: "getSizeClamp (Fin 100) (Fin mnH) (Fin mxH) = Fin 0"
    and ah: "getSizeClamp (Fin 125) (Fin mnH) (Fin mxH) = Fin 0"
    and aw: "getSizeClamp (Fin 200) (Fin mnW) (Fin mxW) = Fin 0"
    using assms by (simp_all add: getSizeClamp_slack)
  show ?thesis
    by (simp add: getDimensionsAfterResize_def getControlDirection_bottom_right Let_def
        jsub_def xor_bool_def Math_max_def w h ah aw)
qed

theorem getDimensionsAfterResize_keeps_ratio_witness:
  "(10::real) \<le> 200 \<and> (250::real) \<le> 1000 \<and> (10::real) \<le> 100 \<and> (125::real) \<le> 1000
   \<and> getDimensionsAfterResize
       \<lparr>sv_width = Fin 200, sv_height = Fin 100, sv_x = Fin 30, sv_y = Fin 40,
        pointerX = Fin 230, pointerY = Fin 140, aspectRatio = Fin 2\<rparr>
       (getControlDirection ''bottom-right'')
       \<lparr>xSnapped = Fin (230 + 50), ySnapped = Fin 140\<rparr>
       \<lparr>minWidth = Fin 10, maxWidth = Fin 1000, minHeight = Fin 10, maxHeight = Fin 1000\<rparr>
       True (Fin 0, Fin 0) None None
     = \<lparr>rect_x = Fin 30, rect_y = Fin 40, rect_width = Fin 250, rect_height = Fin 125\<rparr>"
  using getDimensionsAfterResize_keeps_ratio [of 10 1000 10 1000 30 40 230 140] by simp

section \<open>The diff compares identities\<close>

lemma filter_concat_map:
  "filter P (concat (map f xs)) = concat (map (\<lambda>x. filter P (f x)) xs)"
  by (induction xs) simp_all

lemma diffItem_carried:
  "c \<in> set (diffItem lookup (n, x)) \<Longrightarrow> change_item c = Some x"
  by (auto simp: diffItem_def split: option.splits if_splits)

lemma diffItem_replace:
  "map_of lookup (elem_id item') = Some entry \<Longrightarrow> ref (storeItemOf entry) \<noteq> ref item' \<Longrightarrow>
   diffItem lookup (n, item') = [ReplaceChange (elem_id item') item']"
  by (simp add: diffItem_def)

lemma filter_diffItems:
  assumes "map_of lookup (elem_id item') = Some entry" and "ref (storeItemOf entry) \<noteq> ref item'"
  shows "filter (\<lambda>c. change_item c = Some item') (concat (map (diffItem lookup) (enumerate n items)))
         = replicate (count_list items item') (ReplaceChange (elem_id item') item')"
proof (induction items arbitrary: n)
  case Nil
  show ?case by simp
next
  case (Cons x xs)
  show ?case
  proof (cases "x = item'")
    case True
    then show ?thesis
      using Cons.IH [of "Suc n"] diffItem_replace [OF assms, of n] by simp
  next
    case False
    have "filter (\<lambda>c. change_item c = Some item') (diffItem lookup (n, x)) = []"
      using False by (auto simp: filter_empty_conv dest: diffItem_carried)
    then show ?thesis
      using Cons.IH [of "Suc n"] False by simp
  qed
qed

lemma filter_removals:
  "filter (\<lambda>c. change_item c = Some item')
     (concat (map (\<lambda>(i, lookupItem). if g i then [RemoveChange i] else []) lookup)) = []"
  by (induction lookup) auto

text \<open>
  C2. Let the lookup hold an entry under the id of an item, and let the stored counterpart
  (the user node the entry wraps, or the entry itself) be another object than the item.
  Then the changes that carry the item are \<^verbatim>\<open>replace\<close> changes for its id, one for each
  occurrence of the item in \<open>items\<close>: exactly one for an item that occurs once. No field
  but the identity is looked at, so equal field values do not prevent the change.
\<close>

theorem getElementsDiffChanges_replace:
  assumes "map_of lookup (elem_id item') = Some entry" and "ref (storeItemOf entry) \<noteq> ref item'"
  shows "filter (\<lambda>c. change_item c = Some item') (getElementsDiffChanges items lookup)
         = replicate (count_list items item') (ReplaceChange (elem_id item') item')"
  using filter_diffItems [OF assms] by (simp add: getElementsDiffChanges_def Let_def filter_removals)

theorem getElementsDiffChanges_replace_witness:
  "map_of [(''a'', Inr (plainInternal 5 (plainNode 0 ''a'' 1 2)))] (elem_id (plainNode 1 ''a'' 1 2))
     = Some (Inr (plainInternal 5 (plainNode 0 ''a'' 1 2)))
   \<and> ref (storeItemOf (Inr (plainInternal 5 (plainNode 0 ''a'' 1 2)))) \<noteq> ref (plainNode 1 ''a'' 1 2)
   \<and> plainNode 1 ''a'' 1 2 = (plainNode 0 ''a'' 1 2)\<lparr>ref := 1\<rparr>
   \<and> filter (\<lambda>c. change_item c = Some (plainNode 1 ''a'' 1 2))
        (getElementsDiffChanges [plainNode 7 ''b'' 0 0, plainNode 1 ''a'' 1 2]
           [(''a'', Inr (plainInternal 5 (plainNode 0 ''a'' 1 2)))])
     = [ReplaceChange ''a'' (plainNode 1 ''a'' 1 2)]"
  using getElementsDiffChanges_replace [of "[(''a'', Inr (plainInternal 5 (plainNode 0 ''a'' 1 2)))]"
      "plainNode 1 ''a'' 1 2" "Inr (plainInternal 5 (plainNode 0 ''a'' 1 2))"
      "[plainNode 7 ''b'' 0 0, plainNode 1 ''a'' 1 2]"]
  by (simp add: plainNode_def plainInternal_def NodeBase.extend_def InternalNodeBase.fields_def)

section \<open>Selection changes\<close>

lemma getSelectionChanges_fst:
  "fst (getSelectionChanges items sel m)
     = concat (map (\<lambda>(k, it). if \<not> (selected it = None \<and> k \<notin> sel) \<and> selected it \<noteq> Some (k \<in> sel)
                              then [SelectChange (elem_id it) (k \<in> sel)] else []) items)"
  by (induction items) (auto simp: Let_def createSelectionChange_def split: prod.splits)

text \<open>
  C4. In a lookup keyed by the ids of its items, take an item that the target selection
  excludes. If its \<^verbatim>\<open>selected\<close> flag is \<^verbatim>\<open>undefined\<close>, no change for its id is
  emitted. If the flag is \<^verbatim>\<open>true\<close>, exactly one change for its id is emitted, the
  \<^verbatim>\<open>select\<close> change with \<^verbatim>\<open>selected = false\<close>.
\<close>

theorem getSelectionChanges_suppression:
  assumes "distinct (map fst items)"
    and "\<forall>(k, it) \<in> set items. elem_id it = k"
    and "(i, item') \<in> set items"
    and "i \<notin> selectedIds"
  shows "(selected item' = None \<longrightarrow>
            filter (\<lambda>c. change_id c = Some i) (fst (getSelectionChanges items selectedIds m)) = [])
       \<and> (selected item' = Some True \<longrightarrow>
            filter (\<lambda>c. change_id c = Some i) (fst (getSelectionChanges items selectedIds m))
              = [SelectChange i False])"
  using assms
proof (induction items)
  case Nil
  then show ?case by simp
next
  case (Cons p ps)
  obtain k it where p: "p = (k, it)" by (cases p)
  show ?case
  proof (cases "k = i")
    case True
    then have it: "it = item'" using Cons.prems p by (auto simp: rev_image_eqI)
    have notin: "i \<notin> fst ` set ps" using Cons.prems p True by auto
    have rest: "filter (\<lambda>c. change_id c = Some i) (fst (getSelectionChanges ps selectedIds m)) = []"
      using Cons.prems(2) notin
      by (auto simp: getSelectionChanges_fst filter_concat_map filter_empty_conv rev_image_eqI
          split: if_splits)
    show ?thesis
      using rest Cons.prems p True it
      by (auto simp: Let_def createSelectionChange_def split: prod.splits)
  next
    case False
    then have "(i, item') \<in> set ps" using Cons.prems p by auto
    then have IH: "(selected item' = None \<longrightarrow>
            filter (\<lambda>c. change_id c = Some i) (fst (getSelectionChanges ps selectedIds m)) = [])
       \<and> (selected item' = Some True \<longrightarrow>
            filter (\<lambda>c. change_id c = Some i) (fst (getSelectionChanges ps selectedIds m))
              = [SelectChange i False])"
      using Cons.IH Cons.prems by auto
    have "elem_id it = k" using Cons.prems(2) p by auto
    then show ?thesis
      using IH False p
      by (auto simp: Let_def createSelectionChange_def split: prod.splits)
  qed
qed

text \<open>
  The witness follows one item through three calls: untouched and excluded (no change),
  selected with \<^verbatim>\<open>mutateItem\<close> (the stored flag becomes \<^verbatim>\<open>true\<close>), excluded again
  (the change to \<^verbatim>\<open>false\<close>).
\<close>

theorem getSelectionChanges_suppression_witness:
  "distinct (map fst [(''a'', plainNode 0 ''a'' 1 2), (''b'', plainNode 1 ''b'' 3 4)])
   \<and> elem_id (plainNode 0 ''a'' 1 2) = ''a'' \<and> elem_id (plainNode 1 ''b'' 3 4) = ''b''
   \<and> (''a'', plainNode 0 ''a'' 1 2) \<in> set [(''a'', plainNode 0 ''a'' 1 2), (''b'', plainNode 1 ''b'' 3 4)]
   \<and> ''a'' \<notin> {''b''}
   \<and> selected (plainNode 0 ''a'' 1 2) = None
   \<and> filter (\<lambda>c. change_id c = Some ''a'')
        (fst (getSelectionChanges [(''a'', plainNode 0 ''a'' 1 2), (''b'', plainNode 1 ''b'' 3 4)]
                {''b''} True)) = []
   \<and> getSelectionChanges [(''a'', plainNode 0 ''a'' 1 2)] {''a''} True
       = ([SelectChange ''a'' True], [(''a'', (plainNode 0 ''a'' 1 2)\<lparr>selected := Some True\<rparr>)])
   \<and> fst (getSelectionChanges [(''a'', (plainNode 0 ''a'' 1 2)\<lparr>selected := Some True\<rparr>)] {} True)
       = [SelectChange ''a'' False]"
  using getSelectionChanges_suppression
      [of "[(''a'', plainNode 0 ''a'' 1 2), (''b'', plainNode 1 ''b'' 3 4)]" "''a''"
          "plainNode 0 ''a'' 1 2" "{''b''}" True]
  by (simp add: plainNode_def createSelectionChange_def)

section \<open>Removal and replacement supersede\<close>

lemma queueChange_queueOf:
  "queueOf (fst (queueChange (m, adds) c)) i
     = (if change_id c = Some i then queueStep (queueOf m i) c else queueOf m i)"
  by (cases c) (auto simp: queueOf_def queueStep_def update_conv' split: option.splits)

lemma queueChange_nonempty:
  "\<forall>i. map_of m i \<noteq> Some [] \<Longrightarrow> map_of (fst (queueChange (m, adds) c)) i \<noteq> Some []"
  by (cases c) (auto simp: update_conv' split: option.splits)

lemma queueChange_adds:
  "snd (queueChange (m, adds) c)
     = adds @ (case c of AddChange item' index \<Rightarrow> [(item', index)] | _ \<Rightarrow> [])"
  by (cases c) (auto split: option.splits)

lemma foldl_queueChange:
  "\<forall>i. map_of m i \<noteq> Some [] \<Longrightarrow>
   queueOf (fst (foldl queueChange (m, adds) cs)) i
       = foldl queueStep (queueOf m i) (filter (\<lambda>c. change_id c = Some i) cs)
   \<and> (\<forall>j. map_of (fst (foldl queueChange (m, adds) cs)) j \<noteq> Some [])
   \<and> snd (foldl queueChange (m, adds) cs)
       = adds @ concat (map (\<lambda>c. case c of AddChange item' index \<Rightarrow> [(item', index)] | _ \<Rightarrow> []) cs)"
proof (induction cs arbitrary: m adds)
  case Nil
  then show ?case by simp
next
  case (Cons c cs)
  obtain m' adds' where step: "queueChange (m, adds) c = (m', adds')"
    by (cases "queueChange (m, adds) c")
  have ne: "\<forall>j. map_of m' j \<noteq> Some []"
    using queueChange_nonempty [OF Cons.prems, of adds c] step by simp
  have q: "queueOf m' i = (if change_id c = Some i then queueStep (queueOf m i) c else queueOf m i)"
    using queueChange_queueOf [of m adds c i] step by simp
  have a: "adds' = adds @ (case c of AddChange item' index \<Rightarrow> [(item', index)] | _ \<Rightarrow> [])"
    using queueChange_adds [of m adds c] step by simp
  show ?case
    using Cons.IH [OF ne, of adds'] step q a by simp
qed

text \<open>
  The queue of an id starts with the last \<^verbatim>\<open>remove\<close> or \<^verbatim>\<open>replace\<close> change when
  there is one (changes that arrive later are appended behind it), and otherwise is the
  list of all changes for the id.
\<close>

lemma foldl_queueStep:
  "(filter isRemoveOrReplace cs = [] \<longrightarrow> foldl queueStep [] cs = cs)
   \<and> (filter isRemoveOrReplace cs \<noteq> [] \<longrightarrow>
        foldl queueStep [] cs \<noteq> [] \<and> hd (foldl queueStep [] cs) = last (filter isRemoveOrReplace cs))"
  by (induction cs rule: rev_induct) (auto simp: queueStep_def)

lemma updateElement_refines:
  "updateElement (fst (foldl queueChange ([], []) changes)) element a
     = updateElement_spec changes element a"
proof -
  let ?m = "fst (foldl queueChange ([], []) changes)"
  let ?queued = "filter (\<lambda>c. change_id c = Some (elem_id element)) changes"
  let ?q = "foldl queueStep [] ?queued"
  have init: "\<forall>i. map_of ([]::ChangesMap) i \<noteq> Some []" by simp
  have q: "queueOf ?m (elem_id element) = ?q"
    and ne: "map_of ?m (elem_id element) \<noteq> Some []"
    using foldl_queueChange [OF init, of "[]" changes "elem_id element"]
    by (simp_all add: queueOf_def)
  show ?thesis
  proof (cases "filter isRemoveOrReplace ?queued = []")
    case True
    then have qq: "?q = ?queued" using foldl_queueStep [of ?queued] by simp
    show ?thesis
    proof (cases ?queued)
      case Nil
      then have "map_of ?m (elem_id element) = None"
        using q qq ne by (auto simp: queueOf_def split: option.splits)
      then show ?thesis
        using Nil True by (simp add: updateElement_def updateElement_spec_def effectiveChanges_def)
    next
      case (Cons c cs)
      then have m: "map_of ?m (elem_id element) = Some (c # cs)"
        using q qq by (auto simp: queueOf_def split: option.splits)
      have eff: "effectiveChanges (elem_id element) changes = c # cs"
        using True Cons by (simp add: effectiveChanges_def Let_def)
      have "\<not> isRemoveOrReplace c"
        using True Cons by (auto simp: filter_empty_conv)
      then show ?thesis
        using eff m
        by (cases c) (simp_all add: updateElement_def updateElement_spec_def)
    qed
  next
    case False
    then have h: "?q \<noteq> []" "hd ?q = last (filter isRemoveOrReplace ?queued)"
      using foldl_queueStep [of ?queued] by simp_all
    then obtain c cs where qc: "?q = c # cs" by (cases ?q) auto
    then have m: "map_of ?m (elem_id element) = Some (c # cs)"
      using q by (auto simp: queueOf_def split: option.splits)
    have c: "c = last (filter isRemoveOrReplace ?queued)" using h qc by simp
    have eff: "effectiveChanges (elem_id element) changes = [c]"
      using False c by (simp add: effectiveChanges_def Let_def)
    have "isRemoveOrReplace c"
      using False c last_in_set [of "filter isRemoveOrReplace ?queued"] by auto
    then show ?thesis
      using eff m
      by (cases c) (simp_all add: updateElement_def updateElement_spec_def)
  qed
qed

lemma applyChanges_refines:
  "applyChanges changes elements a = applyChanges_spec changes elements a"
proof -
  have init: "\<forall>i. map_of ([]::ChangesMap) i \<noteq> Some []" by simp
  have adds: "snd (foldl queueChange ([], []) changes)
      = concat (map (\<lambda>c. case c of AddChange item' index \<Rightarrow> [(item', index)] | _ \<Rightarrow> []) changes)"
    using foldl_queueChange [OF init, of "[]" changes] by simp
  have f: "updateElement (fst (foldl queueChange ([], []) changes)) = updateElement_spec changes"
    using updateElement_refines by (intro ext)
  show ?thesis
    using adds f
    by (cases "foldl queueChange ([], []) changes") (simp add: applyChanges_def applyChanges_spec_def)
qed

text \<open>
  C3. \<^verbatim>\<open>applyChanges\<close>, which files the changes in a map in one pass, computes what
  the specification words: for every id the last \<^verbatim>\<open>remove\<close> or \<^verbatim>\<open>replace\<close>
  change alone decides, whatever else is queued for the id before or after it, and
  without such a change all changes for the id are applied, in arrival order, to one
  shallow copy of the element.
\<close>

theorem applyChanges_supersede:
  "applyChanges changes elements a = applyChanges_spec changes elements a"
  by (rule applyChanges_refines)

text \<open>
  In the witness \<open>a\<close> is selected, removed, then moved: it is dropped. \<open>b\<close> is selected
  and moved: one copy (address \<open>10\<close>) takes both changes. \<open>c\<close> is replaced, then
  selected: the copy of the replacement (address \<open>11\<close>) is not selected. \<open>d\<close> has no
  change and passes through as the object it was.
\<close>

theorem applyChanges_supersede_witness:
  "applyChanges
     [SelectChange ''a'' True, RemoveChange ''a'', PositionChange ''a'' None (Some True),
      SelectChange ''b'' True, ReplaceChange ''c'' (plainNode 9 ''c'' 5 5), SelectChange ''c'' True,
      PositionChange ''b'' (Some \<lparr>pos_x = Fin 7, pos_y = Fin 8\<rparr>) None]
     [plainNode 0 ''a'' 1 2, plainNode 1 ''b'' 1 2, plainNode 2 ''c'' 1 2, plainNode 3 ''d'' 0 0] 10
   = Inr ([(plainNode 10 ''b'' 7 8)\<lparr>selected := Some True\<rparr>, plainNode 11 ''c'' 5 5,
           plainNode 3 ''d'' 0 0], 12)"
  using applyChanges_supersede
    [of "[SelectChange ''a'' True, RemoveChange ''a'', PositionChange ''a'' None (Some True),
      SelectChange ''b'' True, ReplaceChange ''c'' (plainNode 9 ''c'' 5 5), SelectChange ''c'' True,
      PositionChange ''b'' (Some \<lparr>pos_x = Fin 7, pos_y = Fin 8\<rparr>) None]"
     "[plainNode 0 ''a'' 1 2, plainNode 1 ''b'' 1 2, plainNode 2 ''c'' 1 2, plainNode 3 ''d'' 0 0]" 10]
  by (simp add: applyChanges_spec_def updateElement_spec_def effectiveChanges_def plainNode_def)

section \<open>Batching\<close>

text \<open>
  C8. Three pushes of functional payloads in one tick, into an empty queue whose layout
  effect is up to date with \<^verbatim>\<open>serial\<close> or behind it: no flush happens inside the
  pushes; the commit that follows flushes once, with the three payloads in the order of
  the calls, and leaves the queue empty; a further commit flushes nothing; a later push
  starts a new batch. The handler applies the payloads in turn, each to the result of the
  one before, starting from the nodes of the store.
\<close>

theorem batching_collapse:
  assumes "queue s = []" and "effectSerial s \<le> serial s"
  shows "flushed (push (Update f3) (push (Update f2) (push (Update f1) s))) = flushed s
       \<and> flushed (commit (push (Update f3) (push (Update f2) (push (Update f1) s))))
           = flushed s @ [[Update f1, Update f2, Update f3]]
       \<and> queue (commit (push (Update f3) (push (Update f2) (push (Update f1) s)))) = []
       \<and> commit (commit (push (Update f3) (push (Update f2) (push (Update f1) s))))
           = commit (push (Update f3) (push (Update f2) (push (Update f1) s)))
       \<and> flushed (commit (push g (commit (push (Update f3) (push (Update f2) (push (Update f1) s))))))
           = flushed s @ [[Update f1, Update f2, Update f3], [g]]
       \<and> nextNodes current [Update f1, Update f2, Update f3] = f3 (f2 (f1 current))
       \<and> (st_hasDefaultNodes store \<longrightarrow>
            nodeQueueHandler store [Update f1, Update f2, Update f3]
              = SetNodes (f3 (f2 (f1 (st_nodes store)))))"
  using assms
  by (simp add: push_def commit_def layoutEffect_def nextNodes_def nodeQueueHandler_def)

theorem batching_collapse_witness:
  "queue \<lparr>queue = [], serial = 4, effectSerial = 4, flushed = []\<rparr> = ([] :: NodeBase QueueItem list)
   \<and> effectSerial (\<lparr>queue = [], serial = 4, effectSerial = 4, flushed = []\<rparr> :: NodeBase QueueState)
       \<le> serial (\<lparr>queue = [], serial = 4, effectSerial = 4, flushed = []\<rparr> :: NodeBase QueueState)
   \<and> flushed (commit (push (Update rev) (push (Update (\<lambda>xs. xs @ [plainNode 2 ''c'' 0 0]))
        (push (Update (\<lambda>xs. xs @ [plainNode 1 ''b'' 0 0]))
           \<lparr>queue = [], serial = 4, effectSerial = 4, flushed = []\<rparr>))))
     = [[Update (\<lambda>xs. xs @ [plainNode 1 ''b'' 0 0]), Update (\<lambda>xs. xs @ [plainNode 2 ''c'' 0 0]),
         Update rev]]
   \<and> st_hasDefaultNodes \<lparr>st_nodes = [plainNode 0 ''a'' 0 0], st_hasDefaultNodes = True,
        st_hasOnNodesChange = False, st_nodeLookup = []\<rparr>
   \<and> nodeQueueHandler \<lparr>st_nodes = [plainNode 0 ''a'' 0 0], st_hasDefaultNodes = True,
        st_hasOnNodesChange = False, st_nodeLookup = []\<rparr>
       [Update (\<lambda>xs. xs @ [plainNode 1 ''b'' 0 0]), Update (\<lambda>xs. xs @ [plainNode 2 ''c'' 0 0]),
        Update rev]
     = SetNodes [plainNode 2 ''c'' 0 0, plainNode 1 ''b'' 0 0, plainNode 0 ''a'' 0 0]"
  using batching_collapse
    [of "\<lparr>queue = [], serial = 4, effectSerial = 4, flushed = []\<rparr>"
        rev "\<lambda>xs. xs @ [plainNode 2 ''c'' 0 0]" "\<lambda>xs. xs @ [plainNode 1 ''b'' 0 0]"
        "Items []" "[]"
        "\<lparr>st_nodes = [plainNode 0 ''a'' 0 0], st_hasDefaultNodes = True,
          st_hasOnNodesChange = False, st_nodeLookup = []\<rparr>"]
  by simp

section \<open>Adoption\<close>

lemma wellKeyed_map_of: "wellKeyed lookup \<Longrightarrow> map_of lookup k = Some i \<Longrightarrow> elem_id i = k"
  by (auto simp: wellKeyed_def dest: map_of_SomeD)

lemma updateChildNode_other:
  "k \<noteq> elem_id node \<Longrightarrow>
   map_of (fst (updateChildNode node L P options a)) k = map_of L k"
  by (auto simp: updateChildNode_def Let_def update_conv' split: option.splits prod.splits)

lemma updateChildNode_no_parent:
  "(case parentId node of None \<Rightarrow> None | Some p \<Rightarrow> map_of L p) = None \<Longrightarrow>
   updateChildNode node L P options a = (L, P, a)"
  by (simp add: updateChildNode_def Let_def)



lemma adoptedNode_id:
  "wellKeyed tmpLookup \<Longrightarrow> elem_id (adoptedNode options tmpLookup n a) = elem_id n"
  by (auto simp: adoptedNode_def Let_def newInternalNode_def dest: wellKeyed_map_of
      split: option.splits)

lemma adoptUserNode_unfold:
  "adoptUserNode options tmpLookup (L, P, a) n =
     (let internalNode = adoptedNode options tmpLookup n a;
          a' = (if internalNode = the (map_of tmpLookup (elem_id n))
                   \<and> m_checkEquality (mergeObjects adoptUserNodesDefaultOptions options)
                   \<and> (case map_of tmpLookup (elem_id n) of None \<Rightarrow> False
                       | Some i \<Rightarrow> ref n = ref (userNode (internals i)))
                then a else Suc a);
          L' = AList.update (elem_id n) internalNode L
      in if truthy (parentId n) then updateChildNode internalNode L' P options a'
         else (L', P, a'))"
  by (auto simp: adoptUserNode_def adoptedNode_def Let_def)

lemma adoptUserNode_other:
  assumes "wellKeyed tmpLookup" and "k \<noteq> elem_id n"
  shows "map_of (fst (adoptUserNode options tmpLookup s n)) k = map_of (fst s) k"
proof -
  obtain L P a where s: "s = (L, P, a)" by (cases s)
  have "k \<noteq> elem_id (adoptedNode options tmpLookup n a)"
    using assms adoptedNode_id by simp
  then show ?thesis
    using assms(2) unfolding s adoptUserNode_unfold
    by (simp add: Let_def updateChildNode_other update_conv')
qed

lemma adoptLoop_other:
  assumes "wellKeyed tmpLookup" and "k \<notin> elem_id ` set ns"
  shows "map_of (fst (foldl (adoptUserNode options tmpLookup) s ns)) k = map_of (fst s) k"
  using assms(2)
proof (induction ns arbitrary: s)
  case Nil
  show ?case by simp
next
  case (Cons n ns)
  then show ?case
    using adoptUserNode_other [OF assms(1), of k n options s] by simp
qed

lemma updateChildNode_unchanged:
  assumes "parentId node = Some pid" and "map_of L pid = Some p"
    and "placementUnchanged node p (mergeObjects defaultOptions options)"
  shows "fst (updateChildNode node L P options a) = L"
  using assms
  by (auto simp: updateChildNode_def placementUnchanged_def Let_def split: prod.splits)

lemma adoptedNode_reuse:
  assumes "m_checkEquality (mergeObjects adoptUserNodesDefaultOptions options)"
    and "map_of tmpLookup (elem_id n) = Some i" and "ref (userNode (internals i)) = ref n"
  shows "adoptedNode options tmpLookup n a = i"
  using assms by (simp add: adoptedNode_def Let_def)

section \<open>Children inside their parent\<close>











lemmas adoption_defs = adoptUserNodes_def adoptUserNode_def newInternalNode_def
  updateChildNode_def calculateChildXYZ_def Let_def mergeObjects_def defaultOptions_def
  adoptUserNodesDefaultOptions_def truthy_def getNodePositionWithOrigin_def
  getNodeDimensions_def clampPosition_def clamp_def Math_min_def Math_max_def jsub_def
  nullish_def nullishOr_def plainNode_def infiniteExtent_def asPartial_def calculateZ_def
  updateParentLookup_def jeq_def clampPositionToParent_def noDefaults_def parentP_def
  childC_def movedP_def childE_def internalP_def internalC_def internalE_def


section \<open>Reuse of internal nodes\<close>

text \<open>
  C5, as amended. Let the ids of the node array be distinct and the previous lookup keyed
  by id, and let \<^verbatim>\<open>checkEquality\<close> be enabled. If a user node of the array is the very
  object that the internal node stored under its id wraps, and the node either has no
  \<^verbatim>\<open>parentId\<close>, or has a parent that precedes it in the array and under which child
  placement computes the stored absolute position and the stored \<open>z\<close>, then after
  adoption the lookup holds that same internal node under the id.
\<close>

theorem adoptUserNodes_reuse:
  assumes d: "distinct (map elem_id nodes)" and wk: "wellKeyed nodeLookup"
    and split: "nodes = pre @ n # post"
    and check: "m_checkEquality (mergeObjects adoptUserNodesDefaultOptions options)"
    and prev: "map_of nodeLookup (elem_id n) = Some i"
    and same: "ref (userNode (internals i)) = ref n"
    and placed: "truthy (parentId n) \<Longrightarrow>
        parent \<in> set pre \<and> parentId i = Some (elem_id parent)
        \<and> map_of (fst (adoptUserNodes nodes nodeLookup parentLookup options a)) (elem_id parent)
            = Some p
        \<and> placementUnchanged i p (mergeObjects defaultOptions options)"
  shows "map_of (fst (adoptUserNodes nodes nodeLookup parentLookup options a)) (elem_id n) = Some i"
proof -
  let ?step = "adoptUserNode options nodeLookup"
  let ?s1 = "foldl ?step ([], [], a) pre"
  obtain L1 P1 a1 where s1: "?s1 = (L1, P1, a1)" by (cases ?s1)
  have final: "adoptUserNodes nodes nodeLookup parentLookup options a
                 = foldl ?step (?step (L1, P1, a1) n) post"
    by (simp add: adoptUserNodes_def split s1)
  have notin: "elem_id n \<notin> elem_id ` set post"
    using d split by auto
  have ic: "adoptedNode options nodeLookup n a1 = i"
    using adoptedNode_reuse [OF check prev same] .
  have id: "elem_id i = elem_id n" using wk prev by (rule wellKeyed_map_of)
  have step: "map_of (fst (?step (L1, P1, a1) n)) (elem_id n) = Some i"
  proof (cases "truthy (parentId n)")
    case False
    then show ?thesis
      unfolding adoptUserNode_unfold by (simp add: Let_def ic update_conv')
  next
    case True
    have p_in: "elem_id parent \<in> elem_id ` set pre"
      using placed [OF True] by (simp add: imageI)
    have p_notin: "elem_id parent \<notin> elem_id ` set (n # post)"
      using d split p_in by auto
    have neq: "elem_id parent \<noteq> elem_id n"
      using d split p_in by auto
    have "map_of L1 (elem_id parent) = Some p"
      using placed [OF True] adoptLoop_other [OF wk p_notin, of options "(L1, P1, a1)"] final
      by simp
    then have p': "map_of (AList.update (elem_id n) i L1) (elem_id parent) = Some p"
      using neq by (simp add: update_conv')
    have "fst (updateChildNode i (AList.update (elem_id n) i L1) P1 options a1)
            = AList.update (elem_id n) i L1"
      using updateChildNode_unchanged [OF _ p'] placed [OF True] by simp
    then show ?thesis
      using True check prev same
      by (simp add: adoptUserNode_def Let_def update_conv')
  qed
  show ?thesis
    using adoptLoop_other [OF wk notin, of options "?step (L1, P1, a1) n"] step final by simp
qed

text \<open>
  In the witness the parent and the child are adopted a second time, unchanged: both
  internal nodes are reused, the parent because it has no parent, the child because its
  placement is the stored one.
\<close>

theorem adoptUserNodes_reuse_witness:
  "map_of (fst (adoptUserNodes [parentP, childC] [(''p'', internalP), (''c'', internalC)] [] None 102))
       (elem_id parentP) = Some internalP
   \<and> map_of (fst (adoptUserNodes [parentP, childC] [(''p'', internalP), (''c'', internalC)] [] None 102))
       (elem_id childC) = Some internalC"
  using adoptUserNodes_reuse
    [of "[parentP, childC]" "[(''p'', internalP), (''c'', internalC)]" "[]" parentP "[childC]" None
        internalP parentP "[]" 102 internalP]
    adoptUserNodes_reuse
    [of "[parentP, childC]" "[(''p'', internalP), (''c'', internalC)]" "[parentP]" childC "[]" None
        internalC parentP "[]" 102 internalP]
  by (simp add: adoption_defs wellKeyed_def placementUnchanged_def)

text \<open>
  The claim as it stands fails for a child whose parent has moved. The lookup is filled
  from the parent and the child; then the parent is replaced by a new object at
  \<open>(5, 5)\<close> and the same child object is adopted again. The child is the object its
  internal node wraps, yet its entry is a new object (address \<open>103\<close>) with the absolute
  position \<open>(15, 15)\<close>.
\<close>

theorem adoptUserNodes_child_replaced:
  "fst (adoptUserNodes [parentP, childC] [] [] None 100) = [(''p'', internalP), (''c'', internalC)]
   \<and> m_checkEquality (mergeObjects adoptUserNodesDefaultOptions None)
   \<and> ref childC = ref (userNode (internals internalC))
   \<and> map_of (fst (adoptUserNodes [movedP, childC] [(''p'', internalP), (''c'', internalC)] [] None 102))
        (elem_id childC)
      = Some (internalC\<lparr>ref := 103, internals := (internals internalC)
                \<lparr>positionAbsolute := \<lparr>pos_x = Fin 15, pos_y = Fin 15\<rparr>\<rparr>\<rparr>)
   \<and> map_of (fst (adoptUserNodes [movedP, childC] [(''p'', internalP), (''c'', internalC)] [] None 102))
        (elem_id childC)
      \<noteq> Some internalC"
  by (simp add: adoption_defs)

section \<open>Diff, application, diff again\<close>



















text \<open>
  The lookups the program builds store their arrays: the edge lookup, and the node lookup
  after adoption.
\<close>

lemma update_absent: "k \<notin> fst ` set al \<Longrightarrow> AList.update k v al = al @ [(k, v)]"
  by (induction al) auto

lemma update_present_values:
  "map_of al k = Some v0 \<Longrightarrow> g v = g v0 \<Longrightarrow>
   map (\<lambda>(i, entry). g entry) (AList.update k v al) = map (\<lambda>(i, entry). g entry) al"
  by (induction al) (auto split: if_splits)

lemma update_present_keys:
  "map_of al k = Some v0 \<Longrightarrow> map fst (AList.update k v al) = map fst al"
  by (induction al) (auto split: if_splits)

lemma elementLookupOf_stores:
  assumes "distinct (map elem_id elements)"
  shows "storesElements (elementLookupOf elements) elements"
proof -
  have "distinct (map elem_id (pre @ es)) \<Longrightarrow> storesElements m pre \<Longrightarrow>
        storesElements (foldl (\<lambda>m e. AList.update (elem_id e) (Inl e) m) m es) (pre @ es)"
    for m pre es
  proof (induction es arbitrary: m pre)
    case Nil
    then show ?case by simp
  next
    case (Cons e es)
    have keys: "map fst m = map elem_id pre" using Cons.prems(2) by (simp add: storesElements_def)
    have "elem_id e \<notin> set (map elem_id pre)"
      using Cons.prems(1) by auto
    then have "elem_id e \<notin> fst ` set m"
      using keys by (metis list.set_map)
    then have "AList.update (elem_id e) (Inl e) m = m @ [(elem_id e, Inl e)]"
      by (rule update_absent)
    then have "storesElements (AList.update (elem_id e) (Inl e) m) (pre @ [e])"
      using Cons.prems(2) by (simp add: storesElements_def)
    then show ?case
      using Cons.IH [of "pre @ [e]" "AList.update (elem_id e) (Inl e) m"] Cons.prems(1) by simp
  qed
  from this [of "[]" elements "[]"] show ?thesis
    using assms by (simp add: elementLookupOf_def storesElements_def)
qed

lemma updateChildNode_cases:
  "fst (updateChildNode node L P options a) = L
   \<or> (\<exists>pa z'. fst (updateChildNode node L P options a)
         = AList.update (elem_id node)
             (node\<lparr>ref := a, internals := (internals node)\<lparr>positionAbsolute := pa, z := z'\<rparr>\<rparr>) L)"
proof (cases "case parentId node of None \<Rightarrow> None | Some p \<Rightarrow> map_of L p")
  case None
  then show ?thesis by (simp add: updateChildNode_no_parent)
next
  case (Some p)
  let ?m = "mergeObjects defaultOptions options"
  obtain xy z' where calc: "calculateChildXYZ node p (m_nodeOrigin ?m) (m_nodeExtent ?m)
      (if m_elevateNodesOnSelect ?m then Fin 1000 else Fin 0) = (xy, z')"
    by (cases "calculateChildXYZ node p (m_nodeOrigin ?m) (m_nodeExtent ?m)
      (if m_elevateNodesOnSelect ?m then Fin 1000 else Fin 0)")
  let ?pa = "positionAbsolute (internals node)"
  let ?changed = "\<not> jeq (pos_x xy) (pos_x ?pa) \<or> \<not> jeq (pos_y xy) (pos_y ?pa)"
  show ?thesis
  proof (cases "?changed \<or> \<not> jeq z' (z (internals node))")
    case True
    then have "fst (updateChildNode node L P options a)
        = AList.update (elem_id node)
            (node\<lparr>ref := a, internals := (internals node)
               \<lparr>positionAbsolute := (if ?changed then xy else ?pa), z := z'\<rparr>\<rparr>) L"
      using Some calc by (simp add: updateChildNode_def Let_def)
    then show ?thesis by blast
  next
    case False
    then have "fst (updateChildNode node L P options a) = L"
      using Some calc by (simp add: updateChildNode_def Let_def)
    then show ?thesis by simp
  qed
qed

lemma updateChildNode_stores:
  assumes "map_of L (elem_id node) = Some node"
  shows "map fst (fst (updateChildNode node L P options a)) = map fst L
       \<and> map (\<lambda>(i, n). ref (userNode (internals n))) (fst (updateChildNode node L P options a))
           = map (\<lambda>(i, n). ref (userNode (internals n))) L"
proof -
  consider "fst (updateChildNode node L P options a) = L"
    | pa z' where "fst (updateChildNode node L P options a)
         = AList.update (elem_id node)
             (node\<lparr>ref := a, internals := (internals node)\<lparr>positionAbsolute := pa, z := z'\<rparr>\<rparr>) L"
    using updateChildNode_cases [of node L P options a] by blast
  then show ?thesis
  proof cases
    case 1
    then show ?thesis by simp
  next
    case 2
    show ?thesis
      unfolding 2
      using update_present_keys [OF assms]
        update_present_values [OF assms, of "\<lambda>n. ref (userNode (internals n))"]
      by simp
  qed
qed

lemma adoptedNode_userNode:
  "ref (userNode (internals (adoptedNode options tmpLookup n a))) = ref n"
  by (auto simp: adoptedNode_def Let_def newInternalNode_def split: option.splits)

lemma adoptUserNodes_stores:
  assumes d: "distinct (map elem_id nodes)" and wk: "wellKeyed nodeLookup"
  shows "storesElements (asElementLookup (fst (adoptUserNodes nodes nodeLookup parentLookup options a)))
           nodes"
proof -
  let ?step = "adoptUserNode options nodeLookup"
  let ?inv = "\<lambda>L pre. map fst L = map elem_id pre
                \<and> map (\<lambda>(i, n). ref (userNode (internals n))) L = map ref pre"
  have "distinct (map elem_id (pre @ ns)) \<Longrightarrow> ?inv (fst s) pre \<Longrightarrow>
        ?inv (fst (foldl ?step s ns)) (pre @ ns)" for s pre ns
  proof (induction ns arbitrary: s pre)
    case Nil
    then show ?case by simp
  next
    case (Cons n ns)
    obtain L P a0 where s: "s = (L, P, a0)" by (cases s)
    let ?ic = "adoptedNode options nodeLookup n a0"
    let ?L = "AList.update (elem_id n) ?ic L"
    have id: "elem_id ?ic = elem_id n" using wk adoptedNode_id by simp
    have "elem_id n \<notin> set (map elem_id pre)"
      using Cons.prems(1) by auto
    moreover have "map fst L = map elem_id pre" using Cons.prems(2) s by simp
    ultimately have "elem_id n \<notin> fst ` set L"
      by (metis list.set_map)
    then have app: "?L = L @ [(elem_id n, ?ic)]" by (rule update_absent)
    then have inv1: "?inv ?L (pre @ [n])"
      using Cons.prems(2) s by (simp add: adoptedNode_userNode)
    have own: "map_of ?L (elem_id ?ic) = Some ?ic" by (simp add: id update_conv')
    have "?inv (fst (?step s n)) (pre @ [n])"
    proof (cases "truthy (parentId n)")
      case True
      then show ?thesis
        using updateChildNode_stores [OF own] inv1
        unfolding s adoptUserNode_unfold by (simp add: Let_def)
    next
      case False
      then show ?thesis
        using inv1 unfolding s adoptUserNode_unfold by (simp add: Let_def)
    qed
    then show ?case
      using Cons.IH [of "pre @ [n]" "?step s n"] Cons.prems(1) by simp
  qed
  from this [of "[]" nodes "([], [], a)"] have "?inv (fst (adoptUserNodes nodes nodeLookup parentLookup options a)) nodes"
    using d by (simp add: adoptUserNodes_def)
  then show ?thesis
    by (simp add: storesElements_def asElementLookup_def comp_def split_def)
qed




end
